theory Spec2Isabelle
  imports Main "HOL-Library.Word" "HOL-Library.Signed_Division" "HOL-Library.AList"
    "HOL-Library.Sublist"
begin

section \<open>Errors\<close>

text \<open>
  Go errors as values. \<open>Canceled\<close> is the sentinel \<open>context.Canceled\<close>; \<open>Wrapped\<close> is
  an error built with \<open>fmt.Errorf("...: %w", err)\<close>; \<open>Failure\<close> is any other error.
  \<open>errors_Is\<close> follows \<open>errors.Is\<close>: it compares the error with the target and then walks
  the chain of wrapped errors.
\<close>

datatype error = Canceled | Failure string | Wrapped string error

fun errors_Is :: "error \<Rightarrow> error \<Rightarrow> bool" where
  "errors_Is (Wrapped msg inner) target =
     (Wrapped msg inner = target \<or> errors_Is inner target)"
| "errors_Is err target = (err = target)"

text \<open>A Go call either returns or panics (nil dereference, index out of range).\<close>

datatype 'a outcome = Returns 'a | Panics

section \<open>Durations and instants\<close>

text \<open>
  \<open>time.Duration\<close> is an \<open>int64\<close> count of nanoseconds: a 64-bit word read as two's
  complement, compared with the signed orders. Go's integer division truncates towards
  zero. An instant (\<open>time.Time\<close>) is modelled by its count of nanoseconds on the time
  line, an unbounded integer.
\<close>

type_synonym Duration = "64 word"
type_synonym Time = int

definition Second :: Duration where
  "Second = 1000000000"

definition maxDuration :: Duration where
  "maxDuration = 9223372036854775807"

definition minDuration :: Duration where
  "minDuration = - 9223372036854775808"

definition duration_div :: "Duration \<Rightarrow> Duration \<Rightarrow> Duration" where
  "duration_div a b = word_of_int (sint a sdiv sint b)"

text \<open>
  \<open>time.Until(t)\<close> is \<open>t.Sub(time.Now())\<close>; the standard library is not part of the
  repository, so \<open>time_Sub\<close> follows its documented behaviour: the difference of the two
  instants, and the maximum (or minimum) duration when the difference does not fit.
\<close>

definition time_Sub :: "Time \<Rightarrow> Time \<Rightarrow> Duration" where
  "time_Sub t u =
     (if sint minDuration \<le> t - u \<and> t - u \<le> sint maxDuration then word_of_int (t - u)
      else if t < u then minDuration
      else maxDuration)"

definition time_Until :: "Time \<Rightarrow> Time \<Rightarrow> Duration" where
  "time_Until t now = time_Sub t now"

section \<open>Retry and refresh intervals\<close>

definition initialBackoff :: Duration where
  "initialBackoff = 1 * Second"

definition maxBackoff :: Duration where
  "maxBackoff = 60 * Second"

definition multiplier :: Duration where
  "multiplier = 2"

text \<open>
  \<open>createRetryIntervalFunc\<close> returns a closure over the variable \<open>backoffInterval\<close>. The
  closure is modelled by the value of its captured variable: \<open>createRetryIntervalFunc\<close>
  is the state of a fresh closure, and \<open>retryInterval\<close> is one call, giving the returned
  duration and the new value of the captured variable.
\<close>

definition createRetryIntervalFunc :: Duration where
  "createRetryIntervalFunc = initialBackoff"

definition retryInterval :: "Duration \<Rightarrow> Duration \<times> Duration" where
  "retryInterval backoffInterval =
     (let currentBackoff = backoffInterval;
          doubled = backoffInterval * multiplier;
          clamped = (if maxBackoff <s doubled then maxBackoff else doubled)
      in (currentBackoff, clamped))"

text \<open>The durations returned by \<open>n\<close> consecutive calls of one closure.\<close>

fun retryIntervals :: "nat \<Rightarrow> Duration \<Rightarrow> Duration list" where
  "retryIntervals 0 backoffInterval = []"
| "retryIntervals (Suc n) backoffInterval =
     fst (retryInterval backoffInterval) # retryIntervals n (snd (retryInterval backoffInterval))"

text \<open>The values the captured variable takes: between one second and sixty.\<close>

definition backoff_ok :: "Duration \<Rightarrow> bool" where
  "backoff_ok b \<longleftrightarrow> 1000000000 \<le> sint b \<and> sint b \<le> 60000000000"

record SVID =
  Expiry :: Time
  Token :: string

definition getRefreshInterval :: "SVID \<Rightarrow> Time \<Rightarrow> Duration" where
  "getRefreshInterval svid now = duration_div (time_Until (Expiry svid) now) 2 + Second"

section \<open>Configuration\<close>

text \<open>The fields of \<open>sidecar.Config\<close> that the functions below read.\<close>

record JWTConfig =
  JWTAudience :: string
  JWTExtraAudiences :: "string list"
  JWTSVIDFilename :: string

record Config =
  Cmd :: string
  CmdArgs :: string
  PIDFilename :: string
  CertDir :: string
  RenewSignal :: string
  SVIDFilename :: string
  SVIDKeyFilename :: string
  SVIDBundleFilename :: string
  JWTSVIDs :: "JWTConfig list"
  JWTBundleFilename :: string
  ParallelRequests :: int
  Hint :: string

section \<open>The heap\<close>

text \<open>
  \<open>FileWriteStatuses\<close> holds a pointer to a string and a Go map, which is a reference
  to a map object: copying the struct copies the pointer and the reference, not what
  they refer to. The heap keeps the string variables whose address was taken and the
  map objects, each under an address; \<open>nstringVars\<close> and \<open>nmapObjs\<close> are the next free
  addresses. A map object is an association list with one entry per key; Go iterates
  over a map in an unspecified order, the order of the list stands for one such order.
\<close>

record heap =
  stringVars :: "nat \<Rightarrow> string"
  mapObjs :: "nat \<Rightarrow> (string \<times> string) list"
  nstringVars :: nat
  nmapObjs :: nat

text \<open>\<open>v := s; &v\<close>: a fresh string variable that escapes to the heap.\<close>

definition new_string :: "string \<Rightarrow> heap \<Rightarrow> nat \<times> heap" where
  "new_string v h =
     (nstringVars h,
      h\<lparr>stringVars := (stringVars h)(nstringVars h := v), nstringVars := Suc (nstringVars h)\<rparr>)"

text \<open>\<open>make(map[string]string)\<close>.\<close>

definition make_map :: "heap \<Rightarrow> nat \<times> heap" where
  "make_map h =
     (nmapObjs h, h\<lparr>mapObjs := (mapObjs h)(nmapObjs h := []), nmapObjs := Suc (nmapObjs h)\<rparr>)"

text \<open>\<open>m[k] = v\<close> on the map object at address \<open>m\<close>.\<close>

definition map_assign :: "nat \<Rightarrow> string \<Rightarrow> string \<Rightarrow> heap \<Rightarrow> heap" where
  "map_assign m k v h = h\<lparr>mapObjs := (mapObjs h)(m := AList.update k v (mapObjs h m))\<rparr>"

section \<open>The sidecar\<close>

record FileWriteStatuses =
  X509WriteStatus :: "nat option"
  JWTWriteStatus :: nat

record Health =
  FileWriteStatuses :: FileWriteStatuses

record Sidecar =
  config :: Config
  processRunning :: bool
  process :: "nat option"
  health :: Health

text \<open>
  The state the methods of \<open>Sidecar\<close> work on: the receiver, the heap, and the record of
  what was asked of the operating system (the processes started, in order, and the
  signals sent, each with the process pointer it was sent to).
\<close>

record world =
  sidecar :: Sidecar
  mem :: heap
  started :: "nat list"
  signalled :: "(nat option \<times> string) list"

definition writeStatusUnwritten :: string where
  "writeStatusUnwritten = ''unwritten''"

definition writeStatusFailed :: string where
  "writeStatusFailed = ''failed''"

definition writeStatusWritten :: string where
  "writeStatusWritten = ''written''"

definition x509Enabled :: "Config \<Rightarrow> bool" where
  "x509Enabled c \<longleftrightarrow>
     SVIDFilename c \<noteq> [] \<and> SVIDKeyFilename c \<noteq> [] \<and> SVIDBundleFilename c \<noteq> []"

definition jwtBundleEnabled :: "Config \<Rightarrow> bool" where
  "jwtBundleEnabled c \<longleftrightarrow> JWTBundleFilename c \<noteq> []"

definition jwtSVIDsEnabled :: "Config \<Rightarrow> bool" where
  "jwtSVIDsEnabled c \<longleftrightarrow> length (JWTSVIDs c) > 0"

text \<open>\<open>s.health.FileWriteStatuses.X509WriteStatus = &writeStatus\<close> for a fresh variable.\<close>

definition set_X509WriteStatus :: "string \<Rightarrow> world \<Rightarrow> world" where
  "set_X509WriteStatus writeStatus w =
     (let (p, h) = new_string writeStatus (mem w);
          s = sidecar w;
          f = FileWriteStatuses (health s)
      in w\<lparr>sidecar := s\<lparr>health := (health s)\<lparr>FileWriteStatuses := f\<lparr>X509WriteStatus := Some p\<rparr>\<rparr>\<rparr>,
            mem := h\<rparr>)"

text \<open>\<open>s.health.FileWriteStatuses.JWTWriteStatus[path] = writeStatus\<close>.\<close>

definition set_JWTWriteStatus :: "string \<Rightarrow> string \<Rightarrow> world \<Rightarrow> world" where
  "set_JWTWriteStatus path writeStatus w =
     w\<lparr>mem := map_assign (JWTWriteStatus (FileWriteStatuses (health (sidecar w)))) path writeStatus (mem w)\<rparr>"

text \<open>
  \<open>path.Join\<close> belongs to the standard library; the functions that call it take it as
  the parameter \<open>path_Join\<close>.
\<close>

definition setupHealth :: "(string \<Rightarrow> string \<Rightarrow> string) \<Rightarrow> world \<Rightarrow> world" where
  "setupHealth path_Join w =
     (let c = config (sidecar w);
          w1 = (if x509Enabled c then set_X509WriteStatus writeStatusUnwritten w else w);
          w2 = (if jwtBundleEnabled c
                then set_JWTWriteStatus (path_Join (CertDir c) (JWTBundleFilename c)) writeStatusUnwritten w1
                else w1)
      in fold (\<lambda>jwtConfig. set_JWTWriteStatus (path_Join (CertDir c) (JWTSVIDFilename jwtConfig))
                 writeStatusUnwritten)
           (JWTSVIDs c) w2)"

text \<open>\<open>New\<close>, on a given heap.\<close>

definition New :: "(string \<Rightarrow> string \<Rightarrow> string) \<Rightarrow> Config \<Rightarrow> heap \<Rightarrow> world" where
  "New path_Join c h =
     (let (m, h1) = make_map h;
          s = \<lparr>config = c, processRunning = False, process = None,
               health = \<lparr>FileWriteStatuses = \<lparr>X509WriteStatus = None, JWTWriteStatus = m\<rparr>\<rparr>\<rparr>
      in setupHealth path_Join \<lparr>sidecar = s, mem = h1, started = [], signalled = []\<rparr>)"

definition GetHealth :: "world \<Rightarrow> Health" where
  "GetHealth w = health (sidecar w)"

text \<open>
  What a holder of a \<open>Health\<close> value reads through it on a given heap: the string behind
  the X.509 pointer, and the entries of the map object.
\<close>

definition x509_status_in :: "heap \<Rightarrow> Health \<Rightarrow> string option" where
  "x509_status_in h hl = map_option (stringVars h) (X509WriteStatus (FileWriteStatuses hl))"

definition jwt_statuses_in :: "heap \<Rightarrow> Health \<Rightarrow> (string \<times> string) list" where
  "jwt_statuses_in h hl = mapObjs h (JWTWriteStatus (FileWriteStatuses hl))"

subsection \<open>Health probes\<close>

text \<open>The loop of \<open>CheckLiveness\<close> over the entries of the map, with its early return.\<close>

fun none_failed :: "(string \<times> string) list \<Rightarrow> bool" where
  "none_failed [] = True"
| "none_failed ((path, writeStatus) # rest) =
     (if writeStatus = writeStatusFailed then False else none_failed rest)"

text \<open>The loop of \<open>CheckReadiness\<close>.\<close>

fun all_written :: "(string \<times> string) list \<Rightarrow> bool" where
  "all_written [] = True"
| "all_written ((path, writeStatus) # rest) =
     (if writeStatus \<noteq> writeStatusWritten then False else all_written rest)"

text \<open>
  Both probes dereference \<open>X509WriteStatus\<close> when X.509 is enabled: a nil pointer there
  is a panic.
\<close>

definition CheckLiveness :: "world \<Rightarrow> bool outcome" where
  "CheckLiveness w =
     (if \<not> none_failed (jwt_statuses_in (mem w) (health (sidecar w))) then Returns False
      else if x509Enabled (config (sidecar w)) then
        (case x509_status_in (mem w) (health (sidecar w)) of
           None \<Rightarrow> Panics
         | Some writeStatus \<Rightarrow> if writeStatus = writeStatusFailed then Returns False else Returns True)
      else Returns True)"

definition CheckReadiness :: "world \<Rightarrow> bool outcome" where
  "CheckReadiness w =
     (if \<not> all_written (jwt_statuses_in (mem w) (health (sidecar w))) then Returns False
      else if \<not> x509Enabled (config (sidecar w)) then Returns True
      else (case x509_status_in (mem w) (health (sidecar w)) of
              None \<Rightarrow> Panics
            | Some writeStatus \<Rightarrow> Returns (writeStatus = writeStatusWritten)))"

text \<open>
  The statuses the probes look at: those in the JWT map and, when X.509 is enabled, the
  one behind the X.509 pointer.
\<close>

definition tracked_statuses :: "world \<Rightarrow> string set" where
  "tracked_statuses w =
     snd ` set (jwt_statuses_in (mem w) (health (sidecar w)))
     \<union> (if x509Enabled (config (sidecar w))
        then set_option (x509_status_in (mem w) (health (sidecar w))) else {})"

subsection \<open>The child process\<close>

text \<open>
  What one call of \<open>signalProcess\<close> gets from outside the repository: the CSV reader of
  the standard library (\<open>csv_Read comma input\<close> is the first record of \<open>input\<close>, or an
  error), the start of the command (the new process, or an error) and \<open>SignalProcess\<close>.
\<close>

record proc_io =
  csv_Read :: "char \<Rightarrow> string \<Rightarrow> error + string list"
  cmd_Start :: "string \<Rightarrow> string list \<Rightarrow> error + nat"
  SignalProcess :: "nat option \<Rightarrow> string \<Rightarrow> error option"

text \<open>The error of \<open>signalProcess\<close> for a command that does not start.\<close>

definition start_error :: "string \<Rightarrow> error \<Rightarrow> error" where
  "start_error cmd err = Wrapped (''error executing process '' @ [CHR 0x22] @ cmd @ [CHR 0x22]) err"

definition getCmdArgs :: "(char \<Rightarrow> string \<Rightarrow> error + string list) \<Rightarrow> string \<Rightarrow> error + string list" where
  "getCmdArgs read_record args =
     (if args = [] then Inr []
      else (case read_record (CHR '' '') args of
              Inl err \<Rightarrow> Inl err
            | Inr cmdArgs \<Rightarrow> Inr cmdArgs))"

text \<open>
  The body of \<open>signalProcess\<close>, which runs with the mutex held. The goroutine it starts
  (\<open>checkProcessExit\<close>) is part of the concurrent model further down, which takes
  this body apart into its steps.
\<close>

definition signalProcess :: "proc_io \<Rightarrow> world \<Rightarrow> error option \<times> world" where
  "signalProcess io w =
     (let s = sidecar w; c = config s in
      if \<not> processRunning s then
        (case getCmdArgs (csv_Read io) (CmdArgs c) of
           Inl err \<Rightarrow> (Some (Wrapped ''error parsing cmd arguments'' err), w)
         | Inr cmdArgs \<Rightarrow>
             (case cmd_Start io (Cmd c) cmdArgs of
                Inl err \<Rightarrow> (Some (start_error (Cmd c) err), w)
              | Inr p \<Rightarrow>
                  (None, w\<lparr>sidecar := s\<lparr>process := Some p, processRunning := True\<rparr>,
                           started := started w @ [p]\<rparr>)))
      else
        (SignalProcess io (process s) (RenewSignal c),
         w\<lparr>signalled := signalled w @ [(process s, RenewSignal c)]\<rparr>))"

subsection \<open>Updates of the write statuses\<close>

text \<open>
  \<open>updateCertificates\<close>, given the result of \<open>disk.WriteX509Context\<close>. The PID file
  signal, the external reload and the test hook that follow do not touch the sidecar
  and are left out.
\<close>

definition updateCertificates :: "proc_io \<Rightarrow> error option \<Rightarrow> world \<Rightarrow> world" where
  "updateCertificates io writeResult w =
     (case writeResult of
        Some err \<Rightarrow> set_X509WriteStatus writeStatusFailed w
      | None \<Rightarrow>
          (let w1 = set_X509WriteStatus writeStatusWritten w
           in if Cmd (config (sidecar w1)) \<noteq> [] then snd (signalProcess io w1) else w1))"

text \<open>\<open>OnJWTBundlesUpdate\<close>, given the result of \<open>disk.WriteJWTBundleSet\<close>.\<close>

definition OnJWTBundlesUpdate :: "(string \<Rightarrow> string \<Rightarrow> string) \<Rightarrow> error option \<Rightarrow> world \<Rightarrow> world" where
  "OnJWTBundlesUpdate path_Join writeResult w =
     (let c = config (sidecar w);
          jwtBundleFilePath = path_Join (CertDir c) (JWTBundleFilename c)
      in case writeResult of
           Some err \<Rightarrow> set_JWTWriteStatus jwtBundleFilePath writeStatusFailed w
         | None \<Rightarrow> set_JWTWriteStatus jwtBundleFilePath writeStatusWritten w)"

text \<open>
  What one JWT SVID update gets from outside the repository: the answer of
  \<open>jwtSource.FetchJWTSVIDs\<close>, the verdict of \<open>jwtsvid.ParseAndValidate\<close> on a token, the
  verdict of \<open>disk.WriteJWTSVID\<close> on a list of SVIDs, and the reading of the clock.
\<close>

record jwt_io =
  FetchJWTSVIDs :: "error + SVID list"
  ParseAndValidate :: "SVID \<Rightarrow> error option"
  WriteJWTSVID :: "SVID list \<Rightarrow> error option"
  clock :: Time

text \<open>The loop of \<open>fetchJWTSVIDs\<close>: the first token that fails validation ends it.\<close>

fun validate_each :: "(SVID \<Rightarrow> error option) \<Rightarrow> SVID list \<Rightarrow> error option" where
  "validate_each check [] = None"
| "validate_each check (jwtSVID # rest) =
     (case check jwtSVID of Some err \<Rightarrow> Some err | None \<Rightarrow> validate_each check rest)"

definition fetchJWTSVIDs :: "jwt_io \<Rightarrow> error + SVID list" where
  "fetchJWTSVIDs io =
     (case FetchJWTSVIDs io of
        Inl err \<Rightarrow> Inl err
      | Inr jwtSVIDs \<Rightarrow>
          (case validate_each (ParseAndValidate io) jwtSVIDs of
             Some err \<Rightarrow> Inl err
           | None \<Rightarrow> Inr jwtSVIDs))"

definition performJWTSVIDUpdate ::
  "(string \<Rightarrow> string \<Rightarrow> string) \<Rightarrow> jwt_io \<Rightarrow> string \<Rightarrow> world \<Rightarrow> (error + SVID list) \<times> world" where
  "performJWTSVIDUpdate path_Join io jwtSVIDFilename w =
     (case fetchJWTSVIDs io of
        Inl err \<Rightarrow> (Inl err, w)
      | Inr jwtSVIDs \<Rightarrow>
          (let jwtSVIDPath = path_Join (CertDir (config (sidecar w))) jwtSVIDFilename
           in case WriteJWTSVID io jwtSVIDs of
                Some err \<Rightarrow> (Inl err, set_JWTWriteStatus jwtSVIDPath writeStatusFailed w)
              | None \<Rightarrow> (Inr jwtSVIDs, set_JWTWriteStatus jwtSVIDPath writeStatusWritten w)))"

text \<open>
  \<open>jwtSource.FetchJWTSVIDs\<close> belongs to go-spiffe, not to the repository. Its answer is
  made from the response of the Workload API: the error of the request, if it failed;
  for a response without SVIDs, the error of its \<open>parseJWTSVIDs\<close>; otherwise the SVIDs of
  the response, whose tokens are taken to parse.
\<close>

definition parseJWTSVIDs :: "SVID list \<Rightarrow> error + SVID list" where
  "parseJWTSVIDs svids =
     (if svids = [] then Inl (Failure ''there were no SVIDs in the response'') else Inr svids)"

definition JWTSource_FetchJWTSVIDs :: "error + SVID list \<Rightarrow> error + SVID list" where
  "JWTSource_FetchJWTSVIDs response =
     (case response of Inl err \<Rightarrow> Inl err | Inr svids \<Rightarrow> parseJWTSVIDs svids)"

subsection \<open>The refresh loop of one JWT SVID\<close>

text \<open>
  The local state of \<open>updateJWTSVID\<close>: the retry closure, the period the ticker is set
  to, and every period the ticker was set to so far, oldest first. The loop waits in a
  \<open>select\<close>; what it receives there is an event: a tick, with what the update of that
  tick gets from outside, or the end of the context.
\<close>

record refresh =
  retryIntervalFn :: Duration
  ticker :: Duration
  armed :: "Duration list"

datatype event = Tick jwt_io | CtxDone

datatype loop_state = Waiting refresh world | Returned world | Panicked world

text \<open>
  \<open>time.NewTicker(d)\<close> and \<open>ticker.Reset(d)\<close> panic unless \<open>d\<close> is positive;
  \<open>jwtSVIDs[0]\<close> panics on an empty slice.
\<close>

definition set_ticker :: "Duration \<Rightarrow> Duration \<Rightarrow> Duration list \<Rightarrow> world \<Rightarrow> loop_state" where
  "set_ticker d retry history w =
     (if d \<le>s 0 then Panicked w
      else Waiting \<lparr>retryIntervalFn = retry, ticker = d, armed = history @ [d]\<rparr> w)"

definition updateJWTSVID_first ::
  "(string \<Rightarrow> string \<Rightarrow> string) \<Rightarrow> string \<Rightarrow> jwt_io \<Rightarrow> world \<Rightarrow> loop_state" where
  "updateJWTSVID_first path_Join jwtSVIDFilename io w =
     (let retry = createRetryIntervalFunc;
          (result, w1) = performJWTSVIDUpdate path_Join io jwtSVIDFilename w
      in case result of
           Inl err \<Rightarrow> set_ticker (fst (retryInterval retry)) (snd (retryInterval retry)) [] w1
         | Inr jwtSVIDs \<Rightarrow>
             (case jwtSVIDs of
                [] \<Rightarrow> Panicked w1
              | svid # _ \<Rightarrow> set_ticker (getRefreshInterval svid (clock io)) retry [] w1))"

definition on_tick ::
  "(string \<Rightarrow> string \<Rightarrow> string) \<Rightarrow> string \<Rightarrow> jwt_io \<Rightarrow> refresh \<Rightarrow> world \<Rightarrow> loop_state" where
  "on_tick path_Join jwtSVIDFilename io r w =
     (let (result, w1) = performJWTSVIDUpdate path_Join io jwtSVIDFilename w
      in case result of
           Inr jwtSVIDs \<Rightarrow>
             (let retry = createRetryIntervalFunc
              in case jwtSVIDs of
                   [] \<Rightarrow> Panicked w1
                 | svid # _ \<Rightarrow> set_ticker (getRefreshInterval svid (clock io)) retry (armed r) w1)
         | Inl err \<Rightarrow>
             set_ticker (fst (retryInterval (retryIntervalFn r))) (snd (retryInterval (retryIntervalFn r)))
               (armed r) w1)"

fun updateJWTSVID_loop ::
  "(string \<Rightarrow> string \<Rightarrow> string) \<Rightarrow> string \<Rightarrow> event list \<Rightarrow> loop_state \<Rightarrow> loop_state" where
  "updateJWTSVID_loop path_Join jwtSVIDFilename [] st = st"
| "updateJWTSVID_loop path_Join jwtSVIDFilename (CtxDone # evs) (Waiting r w) = Returned w"
| "updateJWTSVID_loop path_Join jwtSVIDFilename (Tick io # evs) (Waiting r w) =
     updateJWTSVID_loop path_Join jwtSVIDFilename evs (on_tick path_Join jwtSVIDFilename io r w)"
| "updateJWTSVID_loop path_Join jwtSVIDFilename (ev # evs) st = st"

definition updateJWTSVID ::
  "(string \<Rightarrow> string \<Rightarrow> string) \<Rightarrow> string \<Rightarrow> jwt_io \<Rightarrow> event list \<Rightarrow> world \<Rightarrow> loop_state" where
  "updateJWTSVID path_Join jwtSVIDFilename io evs w =
     updateJWTSVID_loop path_Join jwtSVIDFilename evs (updateJWTSVID_first path_Join jwtSVIDFilename io w)"

text \<open>
  Whether one update fails, that is, whether \<open>performJWTSVIDUpdate\<close> returns an error:
  the fetch or the validation fails, or the write does.
\<close>

definition update_fails :: "jwt_io \<Rightarrow> bool" where
  "update_fails io =
     (case fetchJWTSVIDs io of
        Inl err \<Rightarrow> True
      | Inr jwtSVIDs \<Rightarrow> WriteJWTSVID io jwtSVIDs \<noteq> None)"

text \<open>The retry closure of a waiting loop holds one of the values a closure can take.\<close>

definition waiting_ok :: "loop_state \<Rightarrow> bool" where
  "waiting_ok st = (case st of Waiting r w \<Rightarrow> backoff_ok (retryIntervalFn r) | _ \<Rightarrow> True)"

section \<open>Run modes\<close>

text \<open>
  One cycle of \<open>fetchAllCredentials\<close>. The three steps it calls
  (\<open>fetchAndWriteX509Context\<close>, \<open>fetchAndWriteJWTBundle\<close>, \<open>fetchAndWriteJWTSVIDs\<close>) are
  parameters: each takes the state and gives its error, if any, and the new state.
\<close>

definition fetchAllCredentials ::
  "Config \<Rightarrow> ('w \<Rightarrow> error option \<times> 'w) \<Rightarrow> ('w \<Rightarrow> error option \<times> 'w) \<Rightarrow> ('w \<Rightarrow> error option \<times> 'w)
     \<Rightarrow> 'w \<Rightarrow> error option \<times> 'w" where
  "fetchAllCredentials c fetchAndWriteX509Context fetchAndWriteJWTBundle fetchAndWriteJWTSVIDs w =
     (let (r1, w1) = (if x509Enabled c then fetchAndWriteX509Context w else (None, w))
      in case r1 of
           Some err \<Rightarrow> (Some err, w1)
         | None \<Rightarrow>
             (let (r2, w2) = (if jwtBundleEnabled c then fetchAndWriteJWTBundle w1 else (None, w1))
              in case r2 of
                   Some err \<Rightarrow> (Some err, w2)
                 | None \<Rightarrow>
                     (let (r3, w3) = (if jwtSVIDsEnabled c then fetchAndWriteJWTSVIDs w2 else (None, w2))
                      in case r3 of
                           Some err \<Rightarrow> (Some err, w3)
                         | None \<Rightarrow> (None, w3))))"

text \<open>
  \<open>RunDaemon\<close>, given the result of \<open>setupClients\<close> and the function \<open>util.RunTasks\<close>,
  which runs the tasks and gives their aggregate error.
\<close>

datatype task = runParallelDaemon | watchX509Context | watchJWTBundles | watchJWTSVIDs

definition daemon_tasks :: "Config \<Rightarrow> task list" where
  "daemon_tasks c =
     (if ParallelRequests c > 0 then [runParallelDaemon]
      else (if x509Enabled c then [watchX509Context] else [])
         @ (if jwtBundleEnabled c then [watchJWTBundles] else [])
         @ (if jwtSVIDsEnabled c then [watchJWTSVIDs] else []))"

definition RunDaemon :: "Config \<Rightarrow> error option \<Rightarrow> (task list \<Rightarrow> error option) \<Rightarrow> error option" where
  "RunDaemon c setupClients RunTasks =
     (case setupClients of
        Some err \<Rightarrow> Some err
      | None \<Rightarrow>
          (let err = RunTasks (daemon_tasks c)
           in case err of
                None \<Rightarrow> err
              | Some e \<Rightarrow> if \<not> errors_Is e Canceled then None else err))"

section \<open>Write statuses over time\<close>

text \<open>
  A tracked resource is the X.509 material or the file at a path of the JWT map; its
  status in a state is what the sidecar's health says about it there, if anything.
\<close>

datatype resource = X509Resource | JWTResource string

definition status_of :: "world \<Rightarrow> resource \<Rightarrow> string option" where
  "status_of w r =
     (case r of
        X509Resource \<Rightarrow> x509_status_in (mem w) (health (sidecar w))
      | JWTResource path \<Rightarrow> map_of (jwt_statuses_in (mem w) (health (sidecar w))) path)"

text \<open>
  The operations that write a status after \<open>New\<close>: an X.509 update with what
  \<open>signalProcess\<close> gets from outside and the result of the write, a JWT bundle update
  with the result of the write, and a JWT SVID update for a file name.
\<close>

datatype update =
  X509ContextUpdate proc_io "error option"
| JWTBundlesUpdate "error option"
| JWTSVIDUpdate jwt_io string

definition apply_update :: "(string \<Rightarrow> string \<Rightarrow> string) \<Rightarrow> update \<Rightarrow> world \<Rightarrow> world" where
  "apply_update path_Join u w =
     (case u of
        X509ContextUpdate io writeResult \<Rightarrow> updateCertificates io writeResult w
      | JWTBundlesUpdate writeResult \<Rightarrow> OnJWTBundlesUpdate path_Join writeResult w
      | JWTSVIDUpdate io jwtSVIDFilename \<Rightarrow> snd (performJWTSVIDUpdate path_Join io jwtSVIDFilename w))"

text \<open>The resource whose status an update writes, if it writes one.\<close>

definition written_by :: "(string \<Rightarrow> string \<Rightarrow> string) \<Rightarrow> Config \<Rightarrow> update \<Rightarrow> resource option" where
  "written_by path_Join c u =
     (case u of
        X509ContextUpdate io writeResult \<Rightarrow> Some X509Resource
      | JWTBundlesUpdate writeResult \<Rightarrow> Some (JWTResource (path_Join (CertDir c) (JWTBundleFilename c)))
      | JWTSVIDUpdate io jwtSVIDFilename \<Rightarrow>
          (case fetchJWTSVIDs io of
             Inl err \<Rightarrow> None
           | Inr jwtSVIDs \<Rightarrow> Some (JWTResource (path_Join (CertDir c) jwtSVIDFilename))))"

definition allowed_transitions :: "(string \<times> string) set" where
  "allowed_transitions =
     {(writeStatusUnwritten, writeStatusWritten), (writeStatusUnwritten, writeStatusFailed),
      (writeStatusWritten, writeStatusFailed), (writeStatusFailed, writeStatusWritten),
      (writeStatusWritten, writeStatusWritten), (writeStatusFailed, writeStatusFailed)}"

text \<open>The state of a sidecar made by \<open>New\<close> after a list of updates.\<close>

definition after_updates ::
  "(string \<Rightarrow> string \<Rightarrow> string) \<Rightarrow> Config \<Rightarrow> heap \<Rightarrow> update list \<Rightarrow> world" where
  "after_updates path_Join c h us = fold (apply_update path_Join) us (New path_Join c h)"

text \<open>Invariants of these states, used in the proofs.\<close>

definition statuses_known :: "world \<Rightarrow> bool" where
  "statuses_known w \<longleftrightarrow>
     (\<forall>r s. status_of w r = Some s \<longrightarrow>
        s = writeStatusUnwritten \<or> s = writeStatusFailed \<or> s = writeStatusWritten)"

definition pointer_allocated :: "world \<Rightarrow> bool" where
  "pointer_allocated w \<longleftrightarrow>
     (\<forall>p. X509WriteStatus (FileWriteStatuses (health (sidecar w))) = Some p \<longrightarrow> p < nstringVars (mem w))"

definition x509_pointer_set :: "world \<Rightarrow> bool" where
  "x509_pointer_set w \<longleftrightarrow>
     (x509Enabled (config (sidecar w)) \<longrightarrow>
        X509WriteStatus (FileWriteStatuses (health (sidecar w))) \<noteq> None)"

definition all_unwritten :: "world \<Rightarrow> bool" where
  "all_unwritten w \<longleftrightarrow> (\<forall>r s. status_of w r = Some s \<longrightarrow> s = writeStatusUnwritten)"

section \<open>Concurrent invocations of \<open>signalProcess\<close>\<close>

text \<open>
  Goroutines that call \<open>signalProcess\<close>, and the goroutines \<open>checkProcessExit\<close> that
  these start, interleaved. Each goroutine has a program counter; a schedule is a list
  of actions, each naming the goroutine that takes its next step, or a child process
  that exits. A step that is not enabled (a \<open>Lock\<close> while the mutex is held, a \<open>Wait\<close>
  on a process that has not exited, a goroutine that has returned) changes nothing.

  The program counter of one call of \<open>signalProcess\<close>: before \<open>s.mu.Lock()\<close>; holding
  the mutex, before the test of \<open>s.processRunning\<close>; in the branch that starts the
  command; after \<open>cmd.Start()\<close> returned the process, before it is recorded; in the
  branch that signals; before the deferred \<open>s.mu.Unlock()\<close>, with the error to return;
  returned.
\<close>

datatype call_pc =
  AtLock | AtTest | AtStart | AtRecord nat | AtSignal | AtUnlock "error option" | Done "error option"

text \<open>
  The program counter of one \<open>checkProcessExit\<close>: before the first \<open>s.mu.Lock()\<close>;
  holding the mutex; in \<open>proc.Wait()\<close> on the process it read; after \<open>Wait\<close> returned,
  before the second \<open>s.mu.Lock()\<close>; holding the mutex again; returned; panicked.
\<close>

datatype reaper_pc =
  RAtLock | RAtCheck | RInWait "nat option" | RAtLock2 | RAtClear | RDone | RPanicked

datatype owner = Call nat | Reaper nat


record system =
  shared :: world
  mutex :: "owner option"
  calls :: "call_pc list"
  reapers :: "reaper_pc list"
  exited :: "nat list"

definition call_step :: "proc_io \<Rightarrow> nat \<Rightarrow> system \<Rightarrow> system" where
  "call_step io t st =
     (let w = shared st; s = sidecar w; c = config s in
      case calls st ! t of
        AtLock \<Rightarrow>
          (if mutex st = None then st\<lparr>mutex := Some (Call t), calls := (calls st)[t := AtTest]\<rparr> else st)
      | AtTest \<Rightarrow>
          st\<lparr>calls := (calls st)[t := (if \<not> processRunning s then AtStart else AtSignal)]\<rparr>
      | AtStart \<Rightarrow>
          (case getCmdArgs (csv_Read io) (CmdArgs c) of
             Inl err \<Rightarrow>
               st\<lparr>calls := (calls st)[t := AtUnlock (Some (Wrapped ''error parsing cmd arguments'' err))]\<rparr>
           | Inr cmdArgs \<Rightarrow>
               (case cmd_Start io (Cmd c) cmdArgs of
                  Inl err \<Rightarrow>
                    st\<lparr>calls := (calls st)[t := AtUnlock (Some (start_error (Cmd c) err))]\<rparr>
                | Inr p \<Rightarrow>
                    st\<lparr>shared := w\<lparr>started := started w @ [p]\<rparr>, calls := (calls st)[t := AtRecord p]\<rparr>))
      | AtRecord p \<Rightarrow>
          st\<lparr>shared := w\<lparr>sidecar := s\<lparr>process := Some p, processRunning := True\<rparr>\<rparr>,
             reapers := reapers st @ [RAtLock],
             calls := (calls st)[t := AtUnlock None]\<rparr>
      | AtSignal \<Rightarrow>
          st\<lparr>shared := w\<lparr>signalled := signalled w @ [(process s, RenewSignal c)]\<rparr>,
             calls := (calls st)[t := AtUnlock (SignalProcess io (process s) (RenewSignal c))]\<rparr>
      | AtUnlock result \<Rightarrow> st\<lparr>mutex := None, calls := (calls st)[t := Done result]\<rparr>
      | Done result \<Rightarrow> st)"











text \<open>
  The program counter of the call that holds the mutex, if a call holds it, and the
  reapers that have not come back from \<open>Wait\<close>.
\<close>

definition holder_pc :: "system \<Rightarrow> call_pc option" where
  "holder_pc st =
     (case mutex st of
        Some (Call t) \<Rightarrow> if t < length (calls st) then Some (calls st ! t) else None
      | _ \<Rightarrow> None)"





section \<open>One cycle, traced\<close>

text \<open>
  \<open>fetchAllCredentials\<close> works on any state, so its steps can be made to keep a trace:
  \<open>traced k f\<close> is the step \<open>f\<close> that also appends its name and its result to the trace.
  The trace of a cycle is then the list of the steps the cycle ran, in the order it ran
  them. \<open>enabled_steps\<close> are the steps that the configuration enables, in the order
  X.509 context, JWT bundle, JWT SVIDs.
\<close>

datatype step = X509Step | JWTBundleStep | JWTSVIDsStep

definition traced ::
  "step \<Rightarrow> ('w \<Rightarrow> error option \<times> 'w)
     \<Rightarrow> 'w \<times> (step \<times> error option) list \<Rightarrow> error option \<times> ('w \<times> (step \<times> error option) list)" where
  "traced k f = (\<lambda>(w, tr). let (r, w') = f w in (r, (w', tr @ [(k, r)])))"

definition enabled_steps :: "Config \<Rightarrow> step list" where
  "enabled_steps c =
     (if x509Enabled c then [X509Step] else [])
     @ (if jwtBundleEnabled c then [JWTBundleStep] else [])
     @ (if jwtSVIDsEnabled c then [JWTSVIDsStep] else [])"

definition traced_cycle ::
  "Config \<Rightarrow> ('w \<Rightarrow> error option \<times> 'w) \<Rightarrow> ('w \<Rightarrow> error option \<times> 'w) \<Rightarrow> ('w \<Rightarrow> error option \<times> 'w)
     \<Rightarrow> 'w \<Rightarrow> error option \<times> ('w \<times> (step \<times> error option) list)" where
  "traced_cycle c fx fb fs w =
     fetchAllCredentials c (traced X509Step fx) (traced JWTBundleStep fb) (traced JWTSVIDsStep fs) (w, [])"

text \<open>
  The cycle as the specification words it: the enabled steps, run in order, the first
  failure ending the cycle with its error.
\<close>

fun run_steps ::
  "(step \<times> ('w \<Rightarrow> error option \<times> 'w)) list \<Rightarrow> 'w \<times> (step \<times> error option) list
     \<Rightarrow> error option \<times> ('w \<times> (step \<times> error option) list)" where
  "run_steps [] st = (None, st)"
| "run_steps ((k, f) # rest) st =
     (case traced k f st of
        (Some err, st') \<Rightarrow> (Some err, st')
      | (None, st') \<Rightarrow> run_steps rest st')"

definition enabled_calls ::
  "Config \<Rightarrow> ('w \<Rightarrow> error option \<times> 'w) \<Rightarrow> ('w \<Rightarrow> error option \<times> 'w) \<Rightarrow> ('w \<Rightarrow> error option \<times> 'w)
     \<Rightarrow> (step \<times> ('w \<Rightarrow> error option \<times> 'w)) list" where
  "enabled_calls c fx fb fs =
     (if x509Enabled c then [(X509Step, fx)] else [])
     @ (if jwtBundleEnabled c then [(JWTBundleStep, fb)] else [])
     @ (if jwtSVIDsEnabled c then [(JWTSVIDsStep, fs)] else [])"

text \<open>
  Sequencing of steps with the early return on an error, the step that does nothing, and
  what it means for a step on a state with a trace to do to the state what a step
  without the trace does.
\<close>

definition skip_step :: "'w \<Rightarrow> error option \<times> 'w" where
  "skip_step w = (None, w)"

definition seq_steps ::
  "('w \<Rightarrow> error option \<times> 'w) \<Rightarrow> ('w \<Rightarrow> error option \<times> 'w) \<Rightarrow> 'w \<Rightarrow> error option \<times> 'w" where
  "seq_steps f g w = (case f w of (Some err, w') \<Rightarrow> (Some err, w') | (None, w') \<Rightarrow> g w')"

definition simulates ::
  "('w \<times> 't \<Rightarrow> error option \<times> ('w \<times> 't)) \<Rightarrow> ('w \<Rightarrow> error option \<times> 'w) \<Rightarrow> bool" where
  "simulates F f \<longleftrightarrow> (\<forall>w tr. fst (F (w, tr)) = fst (f w) \<and> fst (snd (F (w, tr))) = snd (f w))"

section \<open>The reader of the command arguments\<close>

text \<open>
  \<open>getCmdArgs\<close> hands the argument string to \<open>Reader.Read\<close> of \<open>encoding/csv\<close>, with the
  space as \<open>Comma\<close> and every other setting at its default: no comment character, no lazy
  quotes, no trimming of leading space, any number of fields. The package belongs to the
  standard library, not to the repository; what follows is what its \<open>readRecord\<close> does
  on the first call, on a string of bytes.
\<close>

abbreviation LF :: char where "LF \<equiv> CHR 0x0A"
abbreviation CR :: char where "CR \<equiv> CHR 0x0D"
abbreviation dquote :: char where "dquote \<equiv> CHR 0x22"

definition io_EOF :: error where
  "io_EOF = Failure ''EOF''"

text \<open>The two errors of a record that does not parse, without the line and the column.\<close>

definition ErrBareQuote :: error where
  "ErrBareQuote = Wrapped ''parse error'' (Failure (''bare '' @ [dquote] @ '' in non-quoted-field''))"

definition ErrQuote :: error where
  "ErrQuote = Wrapped ''parse error'' (Failure (''extraneous or missing '' @ [dquote] @ '' in quoted-field''))"

text \<open>
  The input as \<open>readLine\<close> hands it over, line after line: each line keeps its newline,
  a line that ends in CR LF ends in LF, and a CR that ends the input is dropped.
\<close>

fun readLines :: "string \<Rightarrow> string" where
  "readLines [] = []"
| "readLines [c] = (if c = CR then [] else [c])"
| "readLines (c # d # rest) =
     (if c = CR \<and> d = LF then LF # readLines rest else c # readLines (d # rest))"

text \<open>
  The loop \<open>parseField\<close> of \<open>readRecord\<close>, byte by byte: where it is in the field it
  reads, the input left, the field so far and the fields read. A field that starts with
  a quote is quoted, and runs to the quote that closes it, across newlines; in it a
  doubled quote is a quote. After the closing quote comes the comma, the end of the line
  or the end of the input; anything else is \<open>ErrQuote\<close>, and so is the end of the input
  inside the quotes. Any other field runs to the comma or the end of the line; a quote in
  it is \<open>ErrBareQuote\<close>. The record ends with the line.
\<close>

datatype field_state = FieldStart | InField | InQuotes | AfterQuote

fun parseField ::
  "char \<Rightarrow> field_state \<Rightarrow> string \<Rightarrow> string \<Rightarrow> string list \<Rightarrow> error + string list" where
  "parseField comma FieldStart [] field dst = Inr (dst @ [field])"
| "parseField comma FieldStart (c # line) field dst =
     (if c = dquote then parseField comma InQuotes line field dst
      else if c = comma then parseField comma FieldStart line [] (dst @ [field])
      else if c = LF then Inr (dst @ [field])
      else parseField comma InField line (field @ [c]) dst)"
| "parseField comma InField [] field dst = Inr (dst @ [field])"
| "parseField comma InField (c # line) field dst =
     (if c = comma then parseField comma FieldStart line [] (dst @ [field])
      else if c = LF then Inr (dst @ [field])
      else if c = dquote then Inl ErrBareQuote
      else parseField comma InField line (field @ [c]) dst)"
| "parseField comma InQuotes [] field dst = Inl ErrQuote"
| "parseField comma InQuotes (c # line) field dst =
     (if c = dquote then parseField comma AfterQuote line field dst
      else parseField comma InQuotes line (field @ [c]) dst)"
| "parseField comma AfterQuote [] field dst = Inr (dst @ [field])"
| "parseField comma AfterQuote (c # line) field dst =
     (if c = dquote then parseField comma InQuotes line (field @ [dquote]) dst
      else if c = comma then parseField comma FieldStart line [] (dst @ [field])
      else if c = LF then Inr (dst @ [field])
      else Inl ErrQuote)"

text \<open>
  \<open>readRecord\<close> skips the empty lines before the record; an input with no other line is
  \<open>io.EOF\<close>.
\<close>

definition skipEmptyLines :: "string \<Rightarrow> string" where
  "skipEmptyLines input = dropWhile (\<lambda>c. c = LF) input"

definition readRecord :: "char \<Rightarrow> string \<Rightarrow> error + string list" where
  "readRecord comma input =
     (case skipEmptyLines (readLines input) of
        [] \<Rightarrow> Inl io_EOF
      | line \<Rightarrow> parseField comma FieldStart line [] [])"

subsection \<open>Records as they are written\<close>




definition plain :: "string \<Rightarrow> bool" where
  "plain f \<longleftrightarrow> (\<forall>c \<in> set f. c \<noteq> CHR '' '' \<and> c \<noteq> dquote \<and> c \<noteq> LF)"






section \<open>Example inputs\<close>

text \<open>
  Concrete inputs on which the theorems below are run: an empty heap, a \<open>path.Join\<close> for
  simple names, a configuration with one JWT SVID, and what a successful and a failed
  update get from outside.
\<close>

definition heap0 :: heap where
  "heap0 = \<lparr>stringVars = (\<lambda>_. []), mapObjs = (\<lambda>_. []), nstringVars = 0, nmapObjs = 0\<rparr>"

definition join0 :: "string \<Rightarrow> string \<Rightarrow> string" where
  "join0 dir file = dir @ ''/'' @ file"

definition jwt_config :: Config where
  "jwt_config =
     \<lparr>Cmd = [], CmdArgs = [], PIDFilename = [], CertDir = ''certs'', RenewSignal = ''SIGHUP'',
      SVIDFilename = [], SVIDKeyFilename = [], SVIDBundleFilename = [],
      JWTSVIDs = [\<lparr>JWTAudience = ''aud'', JWTExtraAudiences = [], JWTSVIDFilename = ''jwt.token''\<rparr>],
      JWTBundleFilename = [], ParallelRequests = 0, Hint = []\<rparr>"

definition svid0 :: SVID where
  "svid0 = \<lparr>Expiry = 600000000000, Token = ''token''\<rparr>"

definition io_ok :: jwt_io where
  "io_ok = \<lparr>FetchJWTSVIDs = Inr [svid0], ParseAndValidate = (\<lambda>_. None),
            WriteJWTSVID = (\<lambda>_. None), clock = 0\<rparr>"

definition io_unavailable :: jwt_io where
  "io_unavailable = \<lparr>FetchJWTSVIDs = Inl (Failure ''unavailable''), ParseAndValidate = (\<lambda>_. None),
                     WriteJWTSVID = (\<lambda>_. None), clock = 0\<rparr>"

text \<open>A configuration with X.509, the JWT bundle and one JWT SVID enabled, and a command.\<close>

definition full_config :: Config where
  "full_config =
     \<lparr>Cmd = ''reload'', CmdArgs = ''-s now'', PIDFilename = [], CertDir = ''certs'',
      RenewSignal = ''SIGHUP'',
      SVIDFilename = ''svid.pem'', SVIDKeyFilename = ''key.pem'', SVIDBundleFilename = ''bundle.pem'',
      JWTSVIDs = [\<lparr>JWTAudience = ''aud'', JWTExtraAudiences = [], JWTSVIDFilename = ''jwt.token''\<rparr>],
      JWTBundleFilename = ''jwks.json'', ParallelRequests = 0, Hint = []\<rparr>"

text \<open>What a call of \<open>signalProcess\<close> gets when the command starts and the signal is sent.\<close>

definition proc_ok :: proc_io where
  "proc_ok = \<lparr>csv_Read = readRecord, cmd_Start = (\<lambda>name args. Inr 4242),
              SignalProcess = (\<lambda>p sig. None)\<rparr>"

text \<open>An update for which the response of the issuer has no SVID.\<close>

definition io_no_svids :: jwt_io where
  "io_no_svids = \<lparr>FetchJWTSVIDs = JWTSource_FetchJWTSVIDs (Inr []), ParseAndValidate = (\<lambda>_. None),
                  WriteJWTSVID = (\<lambda>_. None), clock = 0\<rparr>"









section \<open>Theorems\<close>

lemma sint_Second: "sint Second = 1000000000"
  by (simp add: Second_def)

lemma sint_maxBackoff: "sint maxBackoff = 60000000000"
  by (simp add: maxBackoff_def Second_def)

subsection \<open>Retry intervals\<close>

lemma sint_double:
  fixes b :: Duration
  assumes "0 \<le> sint b" "sint b \<le> 60000000000"
  shows "sint (b * multiplier) = 2 * sint b"
proof -
  have "sint (b * 2) = signed_take_bit 63 (sint b * 2)"
    by (simp add: sint_word_mult)
  also have "\<dots> = sint b * 2"
    using assms by (intro signed_take_bit_int_eq_self) auto
  finally show ?thesis by (simp add: multiplier_def)
qed

lemma fst_retryInterval: "fst (retryInterval b) = b"
  by (simp add: retryInterval_def Let_def)

lemma sint_snd_retryInterval:
  assumes "0 \<le> sint b" "sint b \<le> 60000000000"
  shows "sint (snd (retryInterval b)) = min (2 * sint b) 60000000000"
  using assms sint_double[OF assms]
  by (auto simp: retryInterval_def Let_def word_sless_alt sint_maxBackoff)

lemma backoff_ok_step: "backoff_ok b \<Longrightarrow> backoff_ok (snd (retryInterval b))"
  by (simp add: backoff_ok_def sint_snd_retryInterval)

lemma backoff_ok_fresh: "backoff_ok createRetryIntervalFunc"
  by (simp add: backoff_ok_def createRetryIntervalFunc_def initialBackoff_def Second_def)

lemma length_retryIntervals: "length (retryIntervals n b) = n"
  by (induction n arbitrary: b) auto

lemma retryIntervals_nth_Suc:
  "backoff_ok b \<Longrightarrow> Suc i < n \<Longrightarrow>
     sint (retryIntervals n b ! Suc i) = min (2 * sint (retryIntervals n b ! i)) 60000000000"
proof (induction n arbitrary: b i)
  case 0 then show ?case by simp
next
  case (Suc n)
  show ?case
  proof (cases i)
    case 0
    with Suc.prems obtain m where "n = Suc m" by (cases n) auto
    with 0 Suc.prems show ?thesis
      by (simp add: fst_retryInterval sint_snd_retryInterval backoff_ok_def)
  next
    case (Suc j)
    with Suc.prems Suc.IH[of "snd (retryInterval b)" j] show ?thesis
      by (simp add: backoff_ok_step)
  qed
qed

lemma retryIntervals_bounds:
  "backoff_ok b \<Longrightarrow> x \<in> set (retryIntervals n b) \<Longrightarrow> backoff_ok x"
proof (induction n arbitrary: b)
  case 0 then show ?case by simp
next
  case (Suc n)
  from Suc.prems(2) consider "x = b" | "x \<in> set (retryIntervals n (snd (retryInterval b)))"
    by (auto simp: fst_retryInterval)
  then show ?case
  proof cases
    case 1 with Suc.prems show ?thesis by simp
  next
    case 2 with Suc.IH[OF backoff_ok_step[OF Suc.prems(1)]] show ?thesis by simp
  qed
qed

lemma retryIntervals_lower:
  "backoff_ok b \<Longrightarrow> x \<in> set (retryIntervals n b) \<Longrightarrow> sint b \<le> sint x"
proof (induction n arbitrary: b)
  case 0 then show ?case by simp
next
  case (Suc n)
  have "sint b \<le> sint (snd (retryInterval b))"
    using Suc.prems(1) by (simp add: sint_snd_retryInterval backoff_ok_def)
  with Suc show ?case
    by (auto simp: fst_retryInterval backoff_ok_step intro: order_trans)
qed

lemma retryIntervals_sorted:
  "backoff_ok b \<Longrightarrow> sorted_wrt (\<le>s) (retryIntervals n b)"
proof (induction n arbitrary: b)
  case 0 then show ?case by simp
next
  case (Suc n)
  have le: "sint b \<le> sint (snd (retryInterval b))"
    using Suc.prems(1) by (simp add: sint_snd_retryInterval backoff_ok_def)
  have "\<And>x. x \<in> set (retryIntervals n (snd (retryInterval b))) \<Longrightarrow> b \<le>s x"
    using retryIntervals_lower[OF backoff_ok_step[OF Suc.prems]] le
    by (fastforce simp: word_sle_eq)
  with Suc show ?case
    by (simp add: fst_retryInterval backoff_ok_step)
qed

lemma perform_fails:
  "update_fails io \<Longrightarrow> \<exists>err. fst (performJWTSVIDUpdate pj io fn w) = Inl err"
  by (auto simp: update_fails_def performJWTSVIDUpdate_def Let_def split: sum.splits option.splits)

lemma perform_succeeds:
  "\<not> update_fails io \<Longrightarrow> \<exists>svids. fst (performJWTSVIDUpdate pj io fn w) = Inr svids"
  by (auto simp: update_fails_def performJWTSVIDUpdate_def Let_def split: sum.splits option.splits)

lemma backoff_ok_pos: "backoff_ok b \<Longrightarrow> \<not> b \<le>s 0"
  by (simp add: backoff_ok_def word_sle_eq)

lemma on_tick_fails:
  assumes "update_fails io" "backoff_ok (retryIntervalFn r)"
  shows "\<exists>w'. on_tick pj fn io r w =
           Waiting \<lparr>retryIntervalFn = snd (retryInterval (retryIntervalFn r)),
                    ticker = retryIntervalFn r,
                    armed = armed r @ [retryIntervalFn r]\<rparr> w'"
proof -
  obtain res w1 where p: "performJWTSVIDUpdate pj io fn w = (res, w1)" by fastforce
  with perform_fails[OF assms(1), of pj fn w] obtain err where "res = Inl err" by auto
  with p backoff_ok_pos[OF assms(2)] show ?thesis
    by (simp add: on_tick_def set_ticker_def fst_retryInterval)
qed

lemma on_tick_succeeds:
  assumes "\<not> update_fails io" "on_tick pj fn io r w = Waiting r' w'"
  shows "retryIntervalFn r' = createRetryIntervalFunc"
proof -
  obtain res w1 where p: "performJWTSVIDUpdate pj io fn w = (res, w1)" by fastforce
  with perform_succeeds[OF assms(1), of pj fn w] obtain svids where "res = Inr svids" by auto
  with p assms(2) show ?thesis
    by (auto simp: on_tick_def set_ticker_def Let_def split: list.splits if_splits)
qed

lemma loop_fails:
  assumes "\<forall>io \<in> set fails. update_fails io" "backoff_ok (retryIntervalFn r)"
  shows "\<exists>r' w'. updateJWTSVID_loop pj fn (map Tick fails) (Waiting r w) = Waiting r' w'
           \<and> armed r' = armed r @ retryIntervals (length fails) (retryIntervalFn r)"
  using assms
proof (induction fails arbitrary: r w)
  case Nil
  then show ?case by simp
next
  case (Cons io fails)
  let ?r1 = "\<lparr>retryIntervalFn = snd (retryInterval (retryIntervalFn r)),
                    ticker = retryIntervalFn r,
                    armed = armed r @ [retryIntervalFn r]\<rparr>"
  from Cons.prems on_tick_fails[of io r pj fn w] obtain w1 where
    t: "on_tick pj fn io r w = Waiting ?r1 w1" by auto
  have "backoff_ok (retryIntervalFn ?r1)" using Cons.prems(2) by (simp add: backoff_ok_step)
  with Cons.IH[of ?r1 w1] Cons.prems(1) obtain r' w' where
    "updateJWTSVID_loop pj fn (map Tick fails) (Waiting ?r1 w1) = Waiting r' w'"
    "armed r' = armed ?r1 @ retryIntervals (length fails) (retryIntervalFn ?r1)" by auto
  with t show ?case by (simp add: fst_retryInterval)
qed

text \<open>
  Claim C3. The durations returned by \<open>n\<close> consecutive calls of one closure made by
  \<open>createRetryIntervalFunc\<close> are non-decreasing; the first is exactly one second; each
  one after the first is exactly twice the one before it, or the maximum of sixty seconds
  when twice the one before it is more (no multiplication wraps around); none is more
  than sixty seconds. In the loop of \<open>updateJWTSVID\<close>, a tick whose update succeeds
  installs a fresh closure: the periods the ticker is set to by the failed updates that
  follow it are those of a fresh closure, starting at one second again.
\<close>

theorem retry_intervals:
  "sorted_wrt (\<le>s) (retryIntervals n createRetryIntervalFunc)
   \<and> (0 < n \<longrightarrow> retryIntervals n createRetryIntervalFunc ! 0 = Second)
   \<and> (\<forall>i. Suc i < n \<longrightarrow>
         sint (retryIntervals n createRetryIntervalFunc ! Suc i) =
           min (2 * sint (retryIntervals n createRetryIntervalFunc ! i)) (sint maxBackoff))
   \<and> (\<forall>d \<in> set (retryIntervals n createRetryIntervalFunc). d \<le>s maxBackoff)
   \<and> (\<not> update_fails io \<and> on_tick pj fn io r w = Waiting r' w' \<and> (\<forall>f \<in> set fails. update_fails f) \<longrightarrow>
        (\<exists>r'' w''. updateJWTSVID_loop pj fn (map Tick fails) (Waiting r' w') = Waiting r'' w''
           \<and> armed r'' = armed r' @ retryIntervals (length fails) createRetryIntervalFunc))"
proof (intro conjI allI impI ballI)
  show "sorted_wrt (\<le>s) (retryIntervals n createRetryIntervalFunc)"
    by (rule retryIntervals_sorted[OF backoff_ok_fresh])
next
  assume "0 < n"
  then obtain m where "n = Suc m" by (cases n) auto
  then show "retryIntervals n createRetryIntervalFunc ! 0 = Second"
    by (simp add: fst_retryInterval createRetryIntervalFunc_def initialBackoff_def)
next
  fix i assume "Suc i < n"
  then show "sint (retryIntervals n createRetryIntervalFunc ! Suc i) =
           min (2 * sint (retryIntervals n createRetryIntervalFunc ! i)) (sint maxBackoff)"
    by (simp add: retryIntervals_nth_Suc[OF backoff_ok_fresh] sint_maxBackoff)
next
  fix d assume "d \<in> set (retryIntervals n createRetryIntervalFunc)"
  from retryIntervals_bounds[OF backoff_ok_fresh this] show "d \<le>s maxBackoff"
    by (simp add: backoff_ok_def word_sle_eq sint_maxBackoff)
next
  assume a: "\<not> update_fails io \<and> on_tick pj fn io r w = Waiting r' w' \<and> (\<forall>f \<in> set fails. update_fails f)"
  then have "retryIntervalFn r' = createRetryIntervalFunc"
    using on_tick_succeeds by blast
  with loop_fails[of fails r' pj fn w'] a backoff_ok_fresh
  show "\<exists>r'' w''. updateJWTSVID_loop pj fn (map Tick fails) (Waiting r' w') = Waiting r'' w''
           \<and> armed r'' = armed r' @ retryIntervals (length fails) createRetryIntervalFunc"
    by auto
qed


lemma update_fails_io_ok: "\<not> update_fails io_ok"
  by (simp add: update_fails_def fetchJWTSVIDs_def io_ok_def)

lemma update_fails_io_unavailable: "update_fails io_unavailable"
  by (simp add: update_fails_def fetchJWTSVIDs_def io_unavailable_def)

lemma sint_refresh_svid0: "sint (getRefreshInterval svid0 0) = 301000000000"
  by (simp add: getRefreshInterval_def duration_div_def time_Until_def time_Sub_def svid0_def
      minDuration_def maxDuration_def Second_def signed_divide_int_def)

lemma on_tick_io_ok:
  "on_tick join0 ''jwt.token'' io_ok r w =
     Waiting \<lparr>retryIntervalFn = createRetryIntervalFunc, ticker = getRefreshInterval svid0 0,
              armed = armed r @ [getRefreshInterval svid0 0]\<rparr>
       (set_JWTWriteStatus (join0 (CertDir (config (sidecar w))) ''jwt.token'') writeStatusWritten w)"
  by (simp add: on_tick_def performJWTSVIDUpdate_def fetchJWTSVIDs_def io_ok_def set_ticker_def
      word_sle_eq sint_refresh_svid0)

theorem retry_intervals_witness:
  "signed.sorted (retryIntervals 8 createRetryIntervalFunc)
   \<and> retryIntervals 8 createRetryIntervalFunc ! 0 = Second
   \<and> sint (retryIntervals 8 createRetryIntervalFunc ! Suc 5) =
         min (2 * sint (retryIntervals 8 createRetryIntervalFunc ! 5)) (sint maxBackoff)
   \<and> retryIntervals 8 createRetryIntervalFunc ! 7 \<le>s maxBackoff
   \<and> (\<exists>r w. updateJWTSVID_loop join0 ''jwt.token'' (map Tick [io_unavailable, io_unavailable, io_unavailable])
            (on_tick join0 ''jwt.token'' io_ok
               \<lparr>retryIntervalFn = maxBackoff, ticker = maxBackoff, armed = []\<rparr> (New join0 jwt_config heap0))
          = Waiting r w
        \<and> armed r = getRefreshInterval svid0 0 # retryIntervals 3 createRetryIntervalFunc)"
proof -
  let ?r0 = "\<lparr>retryIntervalFn = maxBackoff, ticker = maxBackoff, armed = []\<rparr>"
  let ?w0 = "New join0 jwt_config heap0"
  let ?r1 = "\<lparr>retryIntervalFn = createRetryIntervalFunc, ticker = getRefreshInterval svid0 0,
              armed = armed ?r0 @ [getRefreshInterval svid0 0]\<rparr>"
  let ?w1 = "set_JWTWriteStatus (join0 (CertDir (config (sidecar ?w0))) ''jwt.token'') writeStatusWritten ?w0"
  have mem: "retryIntervals 8 createRetryIntervalFunc ! 7 \<in> set (retryIntervals 8 createRetryIntervalFunc)"
    by (simp add: length_retryIntervals)
  have fails: "\<forall>f \<in> set [io_unavailable, io_unavailable, io_unavailable]. update_fails f"
    by (simp add: update_fails_io_unavailable)
  note T = retry_intervals[of 8 io_ok join0 "''jwt.token''" ?r0 ?w0 ?r1 ?w1
        "[io_unavailable, io_unavailable, io_unavailable]"]
  have a: "signed.sorted (retryIntervals 8 createRetryIntervalFunc)"
    using T by blast
  have b: "retryIntervals 8 createRetryIntervalFunc ! 0 = Second"
    using T by simp
  have "Suc 5 < (8::nat)" by simp
  with T have c: "sint (retryIntervals 8 createRetryIntervalFunc ! Suc 5) =
         min (2 * sint (retryIntervals 8 createRetryIntervalFunc ! 5)) (sint maxBackoff)"
    by blast
  have d: "retryIntervals 8 createRetryIntervalFunc ! 7 \<le>s maxBackoff"
    using T mem by blast
  have e: "\<exists>r w. updateJWTSVID_loop join0 ''jwt.token'' (map Tick [io_unavailable, io_unavailable, io_unavailable])
            (Waiting ?r1 ?w1) = Waiting r w
        \<and> armed r = armed ?r1 @ retryIntervals (length [io_unavailable, io_unavailable, io_unavailable]) createRetryIntervalFunc"
    using T fails update_fails_io_ok on_tick_io_ok[of ?r0 ?w0] by blast
  then have e': "\<exists>r w. updateJWTSVID_loop join0 ''jwt.token'' (map Tick [io_unavailable, io_unavailable, io_unavailable])
            (on_tick join0 ''jwt.token'' io_ok ?r0 ?w0) = Waiting r w
        \<and> armed r = getRefreshInterval svid0 0 # retryIntervals 3 createRetryIntervalFunc"
    unfolding on_tick_io_ok[of ?r0 ?w0] by (simp add: numeral_3_eq_3 del: retryIntervals.simps updateJWTSVID_loop.simps)
  from a b c d e' show ?thesis by blast
qed

subsection \<open>Refresh interval\<close>

lemma sdiv2_cases: "(k::int) sdiv 2 = (if 0 \<le> k then k div 2 else - ((- k) div 2))"
  by (auto simp: signed_divide_int_def sgn_if)

lemma sint_range64: "- 9223372036854775808 \<le> sint (d :: Duration) \<and> sint d \<le> 9223372036854775807"
  using sint_ge[of d] sint_lt[of d] by simp

lemma sdiv2_bounds:
  "- 9223372036854775808 \<le> (k::int) \<Longrightarrow> k \<le> 9223372036854775807 \<Longrightarrow>
   - 4611686018427387904 \<le> k sdiv 2 \<and> k sdiv 2 \<le> 4611686018427387903"
  unfolding sdiv2_cases by (auto; linarith)

lemma sint_duration_div2: "sint (duration_div d 2) = sint d sdiv 2"
proof -
  have b: "- 4611686018427387904 \<le> sint d sdiv 2 \<and> sint d sdiv 2 \<le> 4611686018427387903"
    using sint_range64[of d] by (intro sdiv2_bounds) auto
  have "sint (duration_div d 2) = signed_take_bit 63 (sint d sdiv 2)"
    by (simp add: duration_div_def sint_sbintrunc')
  also have "\<dots> = sint d sdiv 2"
    using b by (intro signed_take_bit_int_eq_self) auto
  finally show ?thesis .
qed

lemma sint_getRefreshInterval:
  "sint (getRefreshInterval svid now) = sint (time_Until (Expiry svid) now) sdiv 2 + 1000000000"
proof -
  let ?d = "time_Until (Expiry svid) now"
  have b: "- 4611686018427387904 \<le> sint ?d sdiv 2 \<and> sint ?d sdiv 2 \<le> 4611686018427387903"
    using sint_range64[of ?d] by (intro sdiv2_bounds) auto
  have "sint (getRefreshInterval svid now) = signed_take_bit 63 (sint ?d sdiv 2 + 1000000000)"
    by (simp add: getRefreshInterval_def sint_word_add sint_duration_div2 sint_Second)
  also have "\<dots> = sint ?d sdiv 2 + 1000000000"
    using b by (intro signed_take_bit_int_eq_self) auto
  finally show ?thesis .
qed

lemma sint_word_of_int64:
  "- 9223372036854775808 \<le> k \<Longrightarrow> k \<le> 9223372036854775807 \<Longrightarrow> sint (word_of_int k :: Duration) = k"
  by (simp add: sint_sbintrunc' signed_take_bit_int_eq_self)

lemma sint_minDuration: "sint minDuration = - 9223372036854775808"
  by (simp add: minDuration_def)

lemma sint_maxDuration: "sint maxDuration = 9223372036854775807"
  by (simp add: maxDuration_def)

lemma sint_time_Sub_exact:
  assumes "- 9223372036854775808 \<le> t - u" "t - u \<le> 9223372036854775807"
  shows "sint (time_Sub t u) = t - u"
proof -
  have "time_Sub t u = word_of_int (t - u)"
    using assms unfolding time_Sub_def sint_minDuration sint_maxDuration by (simp del: of_int_diff)
  then show ?thesis using sint_word_of_int64[OF assms] by (simp del: of_int_diff)
qed

lemma sint_time_Sub_pos:
  assumes "u < t"
  shows "1 \<le> sint (time_Sub t u)"
proof (cases "t - u \<le> 9223372036854775807")
  case True
  with assms have "sint (time_Sub t u) = t - u" by (intro sint_time_Sub_exact) auto
  with assms show ?thesis by simp
next
  case False
  with assms have "time_Sub t u = maxDuration"
    unfolding time_Sub_def sint_minDuration sint_maxDuration by (simp del: of_int_diff)
  then show ?thesis by (simp add: sint_maxDuration)
qed

text \<open>
  Claim C4, as amended. For an SVID with expiry \<open>E\<close> and the clock at \<open>T\<close>, with
  \<open>E - T\<close> in the range of a duration, \<open>getRefreshInterval\<close> returns exactly
  \<open>(E - T) / 2\<close> plus one second, the division truncating towards zero; and for every
  \<open>E\<close> after \<open>T\<close>, in that range or not, the value is strictly positive.
\<close>

theorem getRefreshInterval_value:
  "(- 9223372036854775808 \<le> Expiry svid - now \<and> Expiry svid - now \<le> 9223372036854775807 \<longrightarrow>
      sint (getRefreshInterval svid now) = (Expiry svid - now) sdiv 2 + sint Second)
   \<and> (now < Expiry svid \<longrightarrow> 0 <s getRefreshInterval svid now)"
proof (intro conjI impI)
  assume "- 9223372036854775808 \<le> Expiry svid - now \<and> Expiry svid - now \<le> 9223372036854775807"
  then show "sint (getRefreshInterval svid now) = (Expiry svid - now) sdiv 2 + sint Second"
    by (simp add: sint_getRefreshInterval time_Until_def sint_time_Sub_exact sint_Second)
next
  assume "now < Expiry svid"
  then have "1 \<le> sint (time_Until (Expiry svid) now)"
    by (simp add: time_Until_def sint_time_Sub_pos)
  then have "0 \<le> sint (time_Until (Expiry svid) now) sdiv 2"
    by (simp add: sdiv2_cases)
  then show "0 <s getRefreshInterval svid now"
    by (simp add: word_sless_alt sint_getRefreshInterval)
qed

theorem getRefreshInterval_value_witness:
  "sint (getRefreshInterval \<lparr>Expiry = 600000000007, Token = ''t''\<rparr> 7) = 301000000000
   \<and> 0 <s getRefreshInterval \<lparr>Expiry = 600000000007, Token = ''t''\<rparr> 7"
  using getRefreshInterval_value[of "\<lparr>Expiry = 600000000007, Token = ''t''\<rparr>" 7]
  by (simp add: sint_Second sdiv2_cases)

text \<open>
  Claim C4 as stated fails when \<open>E - T\<close> does not fit a duration: \<open>time.Until\<close> then
  gives the maximum duration, and the result is half of that plus one second.
\<close>

theorem getRefreshInterval_saturates:
  "sint (getRefreshInterval \<lparr>Expiry = 9223372036854775808, Token = ''t''\<rparr> 0)
     \<noteq> (9223372036854775808 - 0) sdiv 2 + sint Second"
  by (simp add: sint_getRefreshInterval time_Until_def time_Sub_def minDuration_def maxDuration_def
      sint_Second sdiv2_cases)

subsection \<open>The daemon\<close>

text \<open>
  Claim C1. With the clients set up, when the aggregate of the tasks ends with an error
  that is not a cancellation, \<open>RunDaemon\<close> returns no error: the error is lost. When the
  aggregate ends with a cancellation, \<open>RunDaemon\<close> returns the cancellation error. The
  claim says the opposite in both cases.
\<close>

theorem RunDaemon_swallows_error:
  "RunDaemon jwt_config None (\<lambda>tasks. Some (Failure ''workload API unavailable'')) = None
   \<and> RunDaemon jwt_config None (\<lambda>tasks. Some Canceled) = Some Canceled
   \<and> daemon_tasks jwt_config = [watchJWTSVIDs]"
  by (simp add: RunDaemon_def daemon_tasks_def jwt_config_def x509Enabled_def jwtBundleEnabled_def
      jwtSVIDsEnabled_def)

subsection \<open>The command arguments\<close>


lemma plain_Nil [simp]: "plain []"
  by (simp add: plain_def)

lemma plain_Cons [simp]:
  "plain (c # f) \<longleftrightarrow> c \<noteq> CHR '' '' \<and> c \<noteq> dquote \<and> c \<noteq> LF \<and> plain f"
  by (auto simp add: plain_def)

























subsection \<open>One cycle of fetches\<close>

lemma fetchAllCredentials_seq:
  "fetchAllCredentials c f1 f2 f3 w =
     seq_steps (if x509Enabled c then f1 else skip_step)
       (seq_steps (if jwtBundleEnabled c then f2 else skip_step)
          (if jwtSVIDsEnabled c then f3 else skip_step)) w"
  unfolding fetchAllCredentials_def seq_steps_def skip_step_def
  by (simp split: prod.splits option.splits)

lemma seq_steps_skip_right: "seq_steps f skip_step = f"
  by (rule ext) (simp add: seq_steps_def skip_step_def split: prod.splits option.splits)

lemma run_steps_Nil: "run_steps [] = skip_step"
  by (rule ext) (simp add: skip_step_def)

lemma run_steps_Cons: "run_steps ((k, f) # rest) = seq_steps (traced k f) (run_steps rest)"
  by (rule ext) (simp add: seq_steps_def)

lemma run_steps_opt_Cons:
  "run_steps ((if b then [(k, f)] else []) @ rest) =
     seq_steps (if b then traced k f else skip_step) (run_steps rest)"
  by (rule ext) (simp add: seq_steps_def skip_step_def)

lemma traced_cycle_run_steps:
  "traced_cycle c fx fb fs w = run_steps (enabled_calls c fx fb fs) (w, [])"
proof -
  have "run_steps (enabled_calls c fx fb fs) =
      seq_steps (if x509Enabled c then traced X509Step fx else skip_step)
       (seq_steps (if jwtBundleEnabled c then traced JWTBundleStep fb else skip_step)
          (if jwtSVIDsEnabled c then traced JWTSVIDsStep fs else skip_step))"
    unfolding enabled_calls_def run_steps_opt_Cons
    using run_steps_opt_Cons[of "jwtSVIDsEnabled c" JWTSVIDsStep fs "[]"]
    by (simp only: append_Nil2 run_steps_Nil seq_steps_skip_right)
  then show ?thesis
    unfolding traced_cycle_def fetchAllCredentials_seq by simp
qed

lemma map_fst_enabled_calls: "map fst (enabled_calls c fx fb fs) = enabled_steps c"
  by (simp add: enabled_calls_def enabled_steps_def)

lemma run_steps_fail:
  "f w = (Some err, w1) \<Longrightarrow> run_steps ((k, f) # l) (w, tr) = (Some err, (w1, tr @ [(k, Some err)]))"
  by (simp add: traced_def)

lemma run_steps_pass:
  "f w = (None, w1) \<Longrightarrow> run_steps ((k, f) # l) (w, tr) = run_steps l (w1, tr @ [(k, None)])"
  by (simp add: traced_def)

lemma run_steps_trace:
  "\<exists>tr'. snd (snd (run_steps l (w, tr))) = tr @ tr'
     \<and> prefix (map fst tr') (map fst l)
     \<and> (\<forall>(k, r) \<in> set (butlast tr'). r = None)
     \<and> fst (run_steps l (w, tr)) = (if tr' = [] then None else snd (last tr'))
     \<and> (fst (run_steps l (w, tr)) = None \<longleftrightarrow>
          map fst tr' = map fst l \<and> (\<forall>(k, r) \<in> set tr'. r = None))"
proof (induction l arbitrary: w tr)
  case Nil
  then show ?case by simp
next
  case (Cons a l)
  obtain k f where a: "a = (k, f)" by (cases a)
  obtain r w1 where f: "f w = (r, w1)" by fastforce
  show ?case
  proof (cases r)
    case None
    from Cons.IH[of w1 "tr @ [(k, None)]"] obtain tr' where t:
      "snd (snd (run_steps l (w1, tr @ [(k, None)]))) = (tr @ [(k, None)]) @ tr'
     \<and> prefix (map fst tr') (map fst l)
     \<and> (\<forall>(k, r) \<in> set (butlast tr'). r = None)
     \<and> fst (run_steps l (w1, tr @ [(k, None)])) = (if tr' = [] then None else snd (last tr'))
     \<and> (fst (run_steps l (w1, tr @ [(k, None)])) = None \<longleftrightarrow>
          map fst tr' = map fst l \<and> (\<forall>(k, r) \<in> set tr'. r = None))" ..
    note t1 = t[THEN conjunct1]
      and t2 = t[THEN conjunct2, THEN conjunct1]
      and t3 = t[THEN conjunct2, THEN conjunct2, THEN conjunct1]
      and t4 = t[THEN conjunct2, THEN conjunct2, THEN conjunct2, THEN conjunct1]
      and t5 = t[THEN conjunct2, THEN conjunct2, THEN conjunct2, THEN conjunct2]
    have run: "run_steps (a # l) (w, tr) = run_steps l (w1, tr @ [(k, None)])"
      unfolding a using f None by (intro run_steps_pass) simp
    let ?t = "(k, None) # tr'"
    have g1: "snd (snd (run_steps (a # l) (w, tr))) = tr @ ?t"
      unfolding run using t1 by simp
    have g2: "prefix (map fst ?t) (map fst (a # l))"
      using t2 a by simp
    have g3: "\<forall>(k, r) \<in> set (butlast ?t). r = None"
      using t3 by (cases tr') auto
    have g4: "fst (run_steps (a # l) (w, tr)) = (if ?t = [] then None else snd (last ?t))"
      unfolding run using t4 by simp
    have g5: "fst (run_steps (a # l) (w, tr)) = None \<longleftrightarrow>
          map fst ?t = map fst (a # l) \<and> (\<forall>(k, r) \<in> set ?t. r = None)"
      unfolding run using t5 a by simp
    show ?thesis
      by (rule exI[of _ ?t]) (intro conjI g1 g2 g3 g4 g5)
  next
    case (Some err)
    have run: "run_steps (a # l) (w, tr) = (Some err, (w1, tr @ [(k, Some err)]))"
      unfolding a using f Some by (intro run_steps_fail) simp
    show ?thesis
      apply (rule exI[of _ "[(k, Some err)]"])
      unfolding run using a by simp
  qed
qed

lemma traced_plain:
  "fst (traced k f (w, tr)) = fst (f w) \<and> fst (snd (traced k f (w, tr))) = snd (f w)"
  by (simp add: traced_def split: prod.splits)

lemma simulates_traced: "simulates (traced k f) f"
  by (simp add: simulates_def traced_plain)

lemma simulates_skip: "simulates skip_step skip_step"
  by (simp add: simulates_def skip_step_def)

lemma simulates_seq:
  assumes "simulates F f" "simulates G g"
  shows "simulates (seq_steps F G) (seq_steps f g)"
  unfolding simulates_def
proof (intro allI)
  fix w tr
  obtain r w1 where f: "f w = (r, w1)" by fastforce
  obtain R W1 T1 where F: "F (w, tr) = (R, (W1, T1))" by (metis surj_pair)
  from assms(1) have "fst (F (w, tr)) = fst (f w) \<and> fst (snd (F (w, tr))) = snd (f w)"
    unfolding simulates_def by blast
  with f F have eq: "R = r" "W1 = w1" by simp_all
  show "fst (seq_steps F G (w, tr)) = fst (seq_steps f g w) \<and>
       fst (snd (seq_steps F G (w, tr))) = snd (seq_steps f g w)"
  proof (cases r)
    case None
    with f F eq assms(2) show ?thesis by (simp add: seq_steps_def simulates_def)
  next
    case (Some err)
    with f F eq show ?thesis by (simp add: seq_steps_def)
  qed
qed

lemma simulates_if: "simulates F f \<Longrightarrow> simulates (if b then F else skip_step) (if b then f else skip_step)"
  by (simp add: simulates_skip)

lemma traced_cycle_plain:
  "fst (traced_cycle c fx fb fs w) = fst (fetchAllCredentials c fx fb fs w)
   \<and> fst (snd (traced_cycle c fx fb fs w)) = snd (fetchAllCredentials c fx fb fs w)"
proof -
  have "simulates
     (seq_steps (if x509Enabled c then traced X509Step fx else skip_step)
       (seq_steps (if jwtBundleEnabled c then traced JWTBundleStep fb else skip_step)
          (if jwtSVIDsEnabled c then traced JWTSVIDsStep fs else skip_step)))
     (seq_steps (if x509Enabled c then fx else skip_step)
       (seq_steps (if jwtBundleEnabled c then fb else skip_step)
          (if jwtSVIDsEnabled c then fs else skip_step)))"
    by (intro simulates_seq simulates_if simulates_traced)
  then show ?thesis
    unfolding traced_cycle_def fetchAllCredentials_seq simulates_def by blast
qed

text \<open>
  Claim C5. The trace of one cycle of \<open>fetchAllCredentials\<close> is a prefix of the enabled
  steps in the order X.509 context, JWT bundle, JWT SVIDs; every step of the trace but
  the last succeeded, and the cycle returns the result of the last step it ran (no
  error when it ran none), so a step that fails is the last one run and its error is
  returned; the cycle returns no error if and only if it ran every enabled step and each
  succeeded. The traced cycle returns what the cycle without the trace returns, and
  leaves the same state.
\<close>

theorem fetchAllCredentials_order:
  "prefix (map fst (snd (snd (traced_cycle c fx fb fs w)))) (enabled_steps c)
   \<and> (\<forall>(k, r) \<in> set (butlast (snd (snd (traced_cycle c fx fb fs w)))). r = None)
   \<and> fst (traced_cycle c fx fb fs w) =
       (if snd (snd (traced_cycle c fx fb fs w)) = [] then None
        else snd (last (snd (snd (traced_cycle c fx fb fs w)))))
   \<and> (fst (traced_cycle c fx fb fs w) = None \<longleftrightarrow>
        map fst (snd (snd (traced_cycle c fx fb fs w))) = enabled_steps c
        \<and> (\<forall>(k, r) \<in> set (snd (snd (traced_cycle c fx fb fs w))). r = None))
   \<and> fst (traced_cycle c fx fb fs w) = fst (fetchAllCredentials c fx fb fs w)
   \<and> fst (snd (traced_cycle c fx fb fs w)) = snd (fetchAllCredentials c fx fb fs w)"
proof -
  from run_steps_trace[of "enabled_calls c fx fb fs" w "[]"] obtain tr' where t:
    "snd (snd (run_steps (enabled_calls c fx fb fs) (w, []))) = [] @ tr'
     \<and> prefix (map fst tr') (map fst (enabled_calls c fx fb fs))
     \<and> (\<forall>(k, r) \<in> set (butlast tr'). r = None)
     \<and> fst (run_steps (enabled_calls c fx fb fs) (w, [])) = (if tr' = [] then None else snd (last tr'))
     \<and> (fst (run_steps (enabled_calls c fx fb fs) (w, [])) = None \<longleftrightarrow>
          map fst tr' = map fst (enabled_calls c fx fb fs) \<and> (\<forall>(k, r) \<in> set tr'. r = None))" ..
  have run: "run_steps (enabled_calls c fx fb fs) (w, []) = traced_cycle c fx fb fs w"
    by (simp add: traced_cycle_run_steps)
  note t1 = t[THEN conjunct1, unfolded run]
    and t2 = t[THEN conjunct2, THEN conjunct1, unfolded map_fst_enabled_calls]
    and t3 = t[THEN conjunct2, THEN conjunct2, THEN conjunct1]
    and t4 = t[THEN conjunct2, THEN conjunct2, THEN conjunct2, THEN conjunct1, unfolded run]
    and t5 = t[THEN conjunct2, THEN conjunct2, THEN conjunct2, THEN conjunct2,
        unfolded run map_fst_enabled_calls]
  have tr': "snd (snd (traced_cycle c fx fb fs w)) = tr'"
    using t1 by simp
  note p = traced_cycle_plain[of c fx fb fs w]
  show ?thesis
    unfolding tr'
    by (intro conjI t2 t3 t4 t5 p[THEN conjunct1] p[THEN conjunct2])
qed

theorem fetchAllCredentials_order_witness:
  "snd (snd (traced_cycle full_config (\<lambda>n. (None, n + 1)) (\<lambda>n. (Some (Failure ''disk full''), n + 10))
       (\<lambda>n. (None, n + 100)) (0::nat)))
     = [(X509Step, None), (JWTBundleStep, Some (Failure ''disk full''))]
   \<and> enabled_steps full_config = [X509Step, JWTBundleStep, JWTSVIDsStep]
   \<and> fetchAllCredentials full_config (\<lambda>n. (None, n + 1)) (\<lambda>n. (Some (Failure ''disk full''), n + 10))
       (\<lambda>n. (None, n + 100)) (0::nat) = (Some (Failure ''disk full''), 11)"
  using fetchAllCredentials_order[of full_config "\<lambda>n. (None, n + 1)"
      "\<lambda>n. (Some (Failure ''disk full''), n + 10)" "\<lambda>n. (None, n + 100)" "0::nat"]
  by (simp add: traced_cycle_def fetchAllCredentials_def traced_def enabled_steps_def full_config_def
      x509Enabled_def jwtBundleEnabled_def jwtSVIDsEnabled_def)

subsection \<open>Write statuses\<close>

subsection \<open>Effects of the two assignments\<close>

lemma set_X509WriteStatus_simps:
  "config (sidecar (set_X509WriteStatus v w)) = config (sidecar w)"
  "processRunning (sidecar (set_X509WriteStatus v w)) = processRunning (sidecar w)"
  "process (sidecar (set_X509WriteStatus v w)) = process (sidecar w)"
  "JWTWriteStatus (FileWriteStatuses (health (sidecar (set_X509WriteStatus v w))))
     = JWTWriteStatus (FileWriteStatuses (health (sidecar w)))"
  "X509WriteStatus (FileWriteStatuses (health (sidecar (set_X509WriteStatus v w))))
     = Some (nstringVars (mem w))"
  "stringVars (mem (set_X509WriteStatus v w)) = (stringVars (mem w))(nstringVars (mem w) := v)"
  "mapObjs (mem (set_X509WriteStatus v w)) = mapObjs (mem w)"
  "nstringVars (mem (set_X509WriteStatus v w)) = Suc (nstringVars (mem w))"
  "nmapObjs (mem (set_X509WriteStatus v w)) = nmapObjs (mem w)"
  "started (set_X509WriteStatus v w) = started w"
  "signalled (set_X509WriteStatus v w) = signalled w"
  by (simp_all add: set_X509WriteStatus_def new_string_def Let_def)

lemma set_JWTWriteStatus_simps:
  "sidecar (set_JWTWriteStatus path v w) = sidecar w"
  "stringVars (mem (set_JWTWriteStatus path v w)) = stringVars (mem w)"
  "nstringVars (mem (set_JWTWriteStatus path v w)) = nstringVars (mem w)"
  "nmapObjs (mem (set_JWTWriteStatus path v w)) = nmapObjs (mem w)"
  "mapObjs (mem (set_JWTWriteStatus path v w)) =
     (mapObjs (mem w))(JWTWriteStatus (FileWriteStatuses (health (sidecar w)))
        := AList.update path v (mapObjs (mem w) (JWTWriteStatus (FileWriteStatuses (health (sidecar w))))))"
  "started (set_JWTWriteStatus path v w) = started w"
  "signalled (set_JWTWriteStatus path v w) = signalled w"
  by (simp_all add: set_JWTWriteStatus_def map_assign_def)

lemma signalProcess_frame:
  "health (sidecar (snd (signalProcess io w))) = health (sidecar w)"
  "config (sidecar (snd (signalProcess io w))) = config (sidecar w)"
  "mem (snd (signalProcess io w)) = mem w"
  by (simp_all add: signalProcess_def Let_def split: sum.splits)

text \<open>The status views after each assignment.\<close>

lemma status_of_set_X509WriteStatus:
  "status_of (set_X509WriteStatus v w) r =
     (if r = X509Resource then Some v else status_of w r)"
  by (cases r) (simp_all add: status_of_def x509_status_in_def jwt_statuses_in_def set_X509WriteStatus_simps)

lemma status_of_set_JWTWriteStatus:
  "status_of (set_JWTWriteStatus path v w) r =
     (if r = JWTResource path then Some v else status_of w r)"
  by (cases r)
     (simp_all add: status_of_def x509_status_in_def jwt_statuses_in_def set_JWTWriteStatus_simps
        update_conv')

lemma status_of_signalProcess: "status_of (snd (signalProcess io w)) r = status_of w r"
  by (cases r) (simp_all add: status_of_def signalProcess_frame)

lemma status_of_updateCertificates:
  "status_of (updateCertificates io res w) r =
     (if r = X509Resource then Some (if res = None then writeStatusWritten else writeStatusFailed)
      else status_of w r)"
  by (cases res)
     (simp_all add: updateCertificates_def Let_def status_of_signalProcess status_of_set_X509WriteStatus)

lemma status_of_OnJWTBundlesUpdate:
  "status_of (OnJWTBundlesUpdate pj res w) r =
     (if r = JWTResource (pj (CertDir (config (sidecar w))) (JWTBundleFilename (config (sidecar w))))
      then Some (if res = None then writeStatusWritten else writeStatusFailed)
      else status_of w r)"
  by (cases res) (simp_all add: OnJWTBundlesUpdate_def Let_def status_of_set_JWTWriteStatus)

lemma status_of_performJWTSVIDUpdate:
  "status_of (snd (performJWTSVIDUpdate pj io fn w)) r =
     (case fetchJWTSVIDs io of
        Inl err \<Rightarrow> status_of w r
      | Inr jwtSVIDs \<Rightarrow>
          if r = JWTResource (pj (CertDir (config (sidecar w))) fn)
          then Some (if WriteJWTSVID io jwtSVIDs = None then writeStatusWritten else writeStatusFailed)
          else status_of w r)"
  by (simp add: performJWTSVIDUpdate_def Let_def status_of_set_JWTWriteStatus
      split: sum.splits option.splits)

lemma config_apply_update: "config (sidecar (apply_update pj u w)) = config (sidecar w)"
  by (cases u)
     (simp_all add: apply_update_def updateCertificates_def OnJWTBundlesUpdate_def
        performJWTSVIDUpdate_def Let_def signalProcess_frame set_X509WriteStatus_simps
        set_JWTWriteStatus_simps split: option.splits sum.splits)

lemma writeStatus_distinct:
  "writeStatusUnwritten \<noteq> writeStatusFailed" "writeStatusUnwritten \<noteq> writeStatusWritten"
  "writeStatusFailed \<noteq> writeStatusWritten" "writeStatusFailed \<noteq> writeStatusUnwritten"
  "writeStatusWritten \<noteq> writeStatusUnwritten" "writeStatusWritten \<noteq> writeStatusFailed"
  by (simp_all add: writeStatusUnwritten_def writeStatusFailed_def writeStatusWritten_def)

subsection \<open>The state made by \<open>New\<close>\<close>

lemma all_unwritten_set_X509: "all_unwritten w \<Longrightarrow> all_unwritten (set_X509WriteStatus writeStatusUnwritten w)"
  by (simp add: all_unwritten_def status_of_set_X509WriteStatus)

lemma all_unwritten_set_JWT: "all_unwritten w \<Longrightarrow> all_unwritten (set_JWTWriteStatus path writeStatusUnwritten w)"
  by (simp add: all_unwritten_def status_of_set_JWTWriteStatus)

lemma all_unwritten_fold:
  "all_unwritten w \<Longrightarrow>
     all_unwritten (fold (\<lambda>jwtConfig. set_JWTWriteStatus (path jwtConfig) writeStatusUnwritten) l w)"
  by (induction l arbitrary: w) (simp_all add: all_unwritten_set_JWT)

lemma all_unwritten_setupHealth: "all_unwritten w \<Longrightarrow> all_unwritten (setupHealth pj w)"
  unfolding setupHealth_def Let_def
  by (intro all_unwritten_fold) (simp add: all_unwritten_set_X509 all_unwritten_set_JWT)

lemma all_unwritten_New: "all_unwritten (New pj c h)"
proof -
  have "all_unwritten \<lparr>sidecar = \<lparr>config = c, processRunning = False, process = None,
               health = \<lparr>FileWriteStatuses = \<lparr>X509WriteStatus = None, JWTWriteStatus = nmapObjs h\<rparr>\<rparr>\<rparr>,
          mem = h\<lparr>mapObjs := (mapObjs h)(nmapObjs h := []), nmapObjs := Suc (nmapObjs h)\<rparr>,
          started = [], signalled = []\<rparr>"
    unfolding all_unwritten_def
  proof (intro allI impI)
    fix r s
    assume "status_of \<lparr>sidecar = \<lparr>config = c, processRunning = False, process = None,
               health = \<lparr>FileWriteStatuses = \<lparr>X509WriteStatus = None, JWTWriteStatus = nmapObjs h\<rparr>\<rparr>\<rparr>,
          mem = h\<lparr>mapObjs := (mapObjs h)(nmapObjs h := []), nmapObjs := Suc (nmapObjs h)\<rparr>,
          started = [], signalled = []\<rparr> r = Some s"
    then show "s = writeStatusUnwritten"
      by (cases r) (simp_all add: status_of_def x509_status_in_def jwt_statuses_in_def)
  qed
  then show ?thesis
    unfolding New_def make_map_def by (simp add: all_unwritten_setupHealth)
qed

lemma config_fold_set_JWT:
  "config (sidecar (fold (\<lambda>jwtConfig. set_JWTWriteStatus (path jwtConfig) v) l w)) = config (sidecar w)"
  by (induction l arbitrary: w) (simp_all add: set_JWTWriteStatus_simps)

lemma config_setupHealth: "config (sidecar (setupHealth pj w)) = config (sidecar w)"
  by (simp add: setupHealth_def Let_def config_fold_set_JWT set_JWTWriteStatus_simps
      set_X509WriteStatus_simps)

lemma config_New: "config (sidecar (New pj c h)) = c"
  by (simp add: New_def make_map_def config_setupHealth)

subsection \<open>States after updates\<close>

lemma after_updates_Nil: "after_updates pj c h [] = New pj c h"
  by (simp add: after_updates_def)

lemma after_updates_snoc:
  "after_updates pj c h (us @ [u]) = apply_update pj u (after_updates pj c h us)"
  by (simp add: after_updates_def)

lemma after_updates_append:
  "after_updates pj c h (us @ us') = fold (apply_update pj) us' (after_updates pj c h us)"
  by (simp add: after_updates_def)

lemma config_after_updates: "config (sidecar (after_updates pj c h us)) = c"
  by (induction us rule: rev_induct)
     (simp_all add: after_updates_Nil after_updates_snoc config_New config_apply_update)

lemma status_of_apply_update_written:
  assumes "written_by pj (config (sidecar w)) u = Some r"
  shows "status_of (apply_update pj u w) r = Some writeStatusWritten
       \<or> status_of (apply_update pj u w) r = Some writeStatusFailed"
proof (cases u)
  case (X509ContextUpdate io res)
  with assms show ?thesis
    by (simp add: apply_update_def written_by_def status_of_updateCertificates)
next
  case (JWTBundlesUpdate res)
  with assms show ?thesis
    by (auto simp: apply_update_def written_by_def status_of_OnJWTBundlesUpdate)
next
  case (JWTSVIDUpdate io fn)
  with assms show ?thesis
    by (auto simp: apply_update_def written_by_def status_of_performJWTSVIDUpdate split: sum.splits)
qed

lemma status_of_apply_update_other:
  assumes "written_by pj (config (sidecar w)) u \<noteq> Some r"
  shows "status_of (apply_update pj u w) r = status_of w r"
proof (cases u)
  case (X509ContextUpdate io res)
  with assms show ?thesis
    by (simp add: apply_update_def written_by_def status_of_updateCertificates)
next
  case (JWTBundlesUpdate res)
  with assms show ?thesis
    by (auto simp: apply_update_def written_by_def status_of_OnJWTBundlesUpdate)
next
  case (JWTSVIDUpdate io fn)
  with assms show ?thesis
    by (auto simp: apply_update_def written_by_def status_of_performJWTSVIDUpdate split: sum.splits)
qed

lemma statuses_known_apply_update:
  assumes "statuses_known w"
  shows "statuses_known (apply_update pj u w)"
  unfolding statuses_known_def
proof (intro allI impI)
  fix r s
  assume s: "status_of (apply_update pj u w) r = Some s"
  show "s = writeStatusUnwritten \<or> s = writeStatusFailed \<or> s = writeStatusWritten"
  proof (cases "written_by pj (config (sidecar w)) u = Some r")
    case True
    from status_of_apply_update_written[OF True] s show ?thesis by auto
  next
    case False
    from status_of_apply_update_other[OF False] s assms show ?thesis
      by (simp add: statuses_known_def)
  qed
qed

lemma statuses_known_after_updates: "statuses_known (after_updates pj c h us)"
proof (induction us rule: rev_induct)
  case Nil
  have "all_unwritten (New pj c h)" by (rule all_unwritten_New)
  then show ?case by (simp add: after_updates_Nil statuses_known_def all_unwritten_def)
next
  case (snoc u us)
  then show ?case by (simp add: after_updates_snoc statuses_known_apply_update)
qed

lemma allowed_transitionsI:
  assumes "old = writeStatusUnwritten \<or> old = writeStatusFailed \<or> old = writeStatusWritten"
    and "new = writeStatusWritten \<or> new = writeStatusFailed"
  shows "(old, new) \<in> allowed_transitions"
  using assms unfolding allowed_transitions_def by auto

lemma transition_step:
  assumes known: "statuses_known w" and old: "status_of w r = Some old"
  shows "\<exists>new. status_of (apply_update pj u w) r = Some new
           \<and> (if written_by pj (config (sidecar w)) u = Some r
               then (old, new) \<in> allowed_transitions else new = old)"
proof (cases "written_by pj (config (sidecar w)) u = Some r")
  case True
  from known old have o: "old = writeStatusUnwritten \<or> old = writeStatusFailed \<or> old = writeStatusWritten"
    by (simp add: statuses_known_def)
  from status_of_apply_update_written[OF True] obtain new where
    n: "status_of (apply_update pj u w) r = Some new" "new = writeStatusWritten \<or> new = writeStatusFailed"
    by auto
  with True allowed_transitionsI[OF o n(2)] show ?thesis by simp
next
  case False
  with status_of_apply_update_other[OF False] old show ?thesis by simp
qed

lemma left_unwritten_step:
  assumes "status_of w r = Some s" "s \<noteq> writeStatusUnwritten"
  shows "\<exists>s'. status_of (apply_update pj u w) r = Some s' \<and> s' \<noteq> writeStatusUnwritten"
proof (cases "written_by pj (config (sidecar w)) u = Some r")
  case True
  from status_of_apply_update_written[OF True] show ?thesis
    by (auto simp: writeStatus_distinct)
next
  case False
  with status_of_apply_update_other[OF False] assms show ?thesis by simp
qed

lemma left_unwritten_fold:
  assumes "status_of w r = Some s" "s \<noteq> writeStatusUnwritten"
  shows "\<exists>s'. status_of (fold (apply_update pj) us w) r = Some s' \<and> s' \<noteq> writeStatusUnwritten"
  using assms
proof (induction us arbitrary: w s)
  case Nil
  then show ?case by simp
next
  case (Cons u us)
  from left_unwritten_step[OF Cons.prems, of pj u] obtain s1 where
    "status_of (apply_update pj u w) r = Some s1" "s1 \<noteq> writeStatusUnwritten" by auto
  from Cons.IH[OF this] show ?case by simp
qed

text \<open>
  Claim C6. In the state made by \<open>New\<close> every tracked resource is Unwritten. In a state
  reached from it by updates, an update that writes the status of a tracked resource
  takes it along one of the six transitions, and leaves the status of every other
  tracked resource as it is; and a status that has left Unwritten is not Unwritten after
  any further updates.
\<close>

theorem write_status_transitions:
  "(status_of (New pj c h) r = None \<or> status_of (New pj c h) r = Some writeStatusUnwritten)
   \<and> (status_of (after_updates pj c h us) r = Some old \<longrightarrow>
        (\<exists>new. status_of (apply_update pj u (after_updates pj c h us)) r = Some new
           \<and> (if written_by pj c u = Some r then (old, new) \<in> allowed_transitions else new = old)))
   \<and> (status_of (after_updates pj c h us) r = Some old \<and> old \<noteq> writeStatusUnwritten \<longrightarrow>
        (\<exists>s. status_of (after_updates pj c h (us @ us')) r = Some s \<and> s \<noteq> writeStatusUnwritten))"
proof (intro conjI impI)
  show "status_of (New pj c h) r = None \<or> status_of (New pj c h) r = Some writeStatusUnwritten"
    using all_unwritten_New[of pj c h] by (cases "status_of (New pj c h) r") (auto simp: all_unwritten_def)
next
  assume "status_of (after_updates pj c h us) r = Some old"
  from transition_step[OF statuses_known_after_updates this, of pj u]
  show "\<exists>new. status_of (apply_update pj u (after_updates pj c h us)) r = Some new
           \<and> (if written_by pj c u = Some r then (old, new) \<in> allowed_transitions else new = old)"
    by (simp add: config_after_updates)
next
  assume "status_of (after_updates pj c h us) r = Some old \<and> old \<noteq> writeStatusUnwritten"
  then have "\<exists>s. status_of (fold (apply_update pj) us' (after_updates pj c h us)) r = Some s
      \<and> s \<noteq> writeStatusUnwritten"
    by (intro left_unwritten_fold) auto
  then show "\<exists>s. status_of (after_updates pj c h (us @ us')) r = Some s \<and> s \<noteq> writeStatusUnwritten"
    by (simp add: after_updates_append)
qed

theorem write_status_transitions_witness:
  "status_of (New join0 full_config heap0) (JWTResource ''certs/jwks.json'') = Some writeStatusUnwritten
   \<and> status_of (after_updates join0 full_config heap0 [JWTBundlesUpdate None])
        (JWTResource ''certs/jwks.json'') = Some writeStatusWritten
   \<and> status_of (apply_update join0 (JWTBundlesUpdate (Some (Failure ''disk full'')))
          (after_updates join0 full_config heap0 [JWTBundlesUpdate None]))
        (JWTResource ''certs/jwks.json'') = Some writeStatusFailed
   \<and> (writeStatusWritten, writeStatusFailed) \<in> allowed_transitions
   \<and> (\<exists>s. status_of (after_updates join0 full_config heap0
              ([JWTBundlesUpdate None] @ [X509ContextUpdate proc_ok None, JWTSVIDUpdate io_ok ''jwt.token'']))
            (JWTResource ''certs/jwks.json'') = Some s \<and> s \<noteq> writeStatusUnwritten)"
proof -
  let ?r = "JWTResource ''certs/jwks.json''"
  let ?us = "[JWTBundlesUpdate None]"
  let ?u = "JWTBundlesUpdate (Some (Failure ''disk full''))"
  note T = write_status_transitions[of join0 full_config heap0 ?r ?us writeStatusWritten ?u
      "[X509ContextUpdate proc_ok None, JWTSVIDUpdate io_ok ''jwt.token'']"]
  have path: "join0 (CertDir full_config) (JWTBundleFilename full_config) = ''certs/jwks.json''"
    by (simp add: join0_def full_config_def)
  have w: "written_by join0 full_config ?u = Some ?r"
    by (simp add: written_by_def path)
  have old: "status_of (after_updates join0 full_config heap0 ?us) ?r = Some writeStatusWritten"
    using after_updates_snoc[of join0 full_config heap0 "[]" "JWTBundlesUpdate None"]
    by (simp add: apply_update_def status_of_OnJWTBundlesUpdate config_after_updates path)
  have new: "status_of (apply_update join0 ?u (after_updates join0 full_config heap0 ?us)) ?r
      = Some writeStatusFailed"
    by (simp add: apply_update_def status_of_OnJWTBundlesUpdate config_after_updates path)
  have init: "status_of (New join0 full_config heap0) ?r = Some writeStatusUnwritten"
    by (simp add: New_def make_map_def setupHealth_def Let_def status_of_set_JWTWriteStatus
        full_config_def join0_def jwtBundleEnabled_def x509Enabled_def)
  from T old w new have a: "(writeStatusWritten, writeStatusFailed) \<in> allowed_transitions"
    by simp
  from T old have b: "\<exists>s. status_of (after_updates join0 full_config heap0
              (?us @ [X509ContextUpdate proc_ok None, JWTSVIDUpdate io_ok ''jwt.token'']))
            ?r = Some s \<and> s \<noteq> writeStatusUnwritten"
    by (simp add: writeStatus_distinct)
  from init old new a b show ?thesis by blast
qed

subsection \<open>Health probes\<close>

lemma none_failed_iff: "none_failed l \<longleftrightarrow> (\<forall>s \<in> snd ` set l. s \<noteq> writeStatusFailed)"
  by (induction l rule: none_failed.induct) auto

lemma all_written_iff: "all_written l \<longleftrightarrow> (\<forall>s \<in> snd ` set l. s = writeStatusWritten)"
  by (induction l rule: all_written.induct) auto

lemma CheckReadiness_eq:
  assumes "x509_pointer_set w"
  shows "CheckReadiness w = Returns (\<forall>s \<in> tracked_statuses w. s = writeStatusWritten)"
proof (cases "x509Enabled (config (sidecar w))")
  case True
  with assms obtain p where "X509WriteStatus (FileWriteStatuses (health (sidecar w))) = Some p"
    by (auto simp: x509_pointer_set_def)
  with True show ?thesis
    by (auto simp: CheckReadiness_def tracked_statuses_def all_written_iff x509_status_in_def)
next
  case False
  then show ?thesis
    by (auto simp: CheckReadiness_def tracked_statuses_def all_written_iff)
qed

lemma CheckLiveness_eq:
  assumes "x509_pointer_set w"
  shows "CheckLiveness w = Returns (\<forall>s \<in> tracked_statuses w. s \<noteq> writeStatusFailed)"
proof (cases "x509Enabled (config (sidecar w))")
  case True
  with assms obtain p where "X509WriteStatus (FileWriteStatuses (health (sidecar w))) = Some p"
    by (auto simp: x509_pointer_set_def)
  with True show ?thesis
    by (auto simp: CheckLiveness_def tracked_statuses_def none_failed_iff x509_status_in_def)
next
  case False
  then show ?thesis
    by (auto simp: CheckLiveness_def tracked_statuses_def none_failed_iff)
qed

text \<open>The hypothesis of the probes holds in every state reached from \<open>New\<close>.\<close>

lemma x509_pointer_fold:
  "X509WriteStatus (FileWriteStatuses (health (sidecar
      (fold (\<lambda>jwtConfig. set_JWTWriteStatus (path jwtConfig) v) l w))))
   = X509WriteStatus (FileWriteStatuses (health (sidecar w)))"
  by (induction l arbitrary: w) (simp_all add: set_JWTWriteStatus_simps)

lemma x509_pointer_set_New: "x509_pointer_set (New pj c h)"
  by (simp add: x509_pointer_set_def config_New)
     (simp add: New_def make_map_def setupHealth_def Let_def x509_pointer_fold
        set_JWTWriteStatus_simps set_X509WriteStatus_simps)

lemma x509_pointer_apply_update:
  "X509WriteStatus (FileWriteStatuses (health (sidecar w))) \<noteq> None \<Longrightarrow>
   X509WriteStatus (FileWriteStatuses (health (sidecar (apply_update pj u w)))) \<noteq> None"
  by (cases u)
     (simp_all add: apply_update_def updateCertificates_def OnJWTBundlesUpdate_def
        performJWTSVIDUpdate_def Let_def signalProcess_frame set_X509WriteStatus_simps
        set_JWTWriteStatus_simps split: option.splits sum.splits)

lemma x509_pointer_set_after_updates: "x509_pointer_set (after_updates pj c h us)"
proof (induction us rule: rev_induct)
  case Nil
  then show ?case by (simp add: after_updates_Nil x509_pointer_set_New)
next
  case (snoc u us)
  then show ?case
    by (simp add: after_updates_snoc x509_pointer_set_def config_apply_update x509_pointer_apply_update)
qed

text \<open>
  Claim C7. In a state where the X.509 pointer is set when X.509 is enabled (every state
  reached from \<open>New\<close> is one), \<open>CheckReadiness\<close> returns whether every tracked status is
  Written, so it returns false whenever one is Unwritten or Failed; \<open>CheckLiveness\<close>
  returns false if and only if a tracked status is Failed, whatever is Unwritten.
\<close>

theorem health_probes:
  "x509_pointer_set w \<longrightarrow>
     CheckReadiness w = Returns (\<forall>s \<in> tracked_statuses w. s = writeStatusWritten)
     \<and> ((\<exists>s \<in> tracked_statuses w. s = writeStatusUnwritten \<or> s = writeStatusFailed) \<longrightarrow>
          CheckReadiness w = Returns False)
     \<and> (CheckReadiness w = Returns True \<longrightarrow> (\<forall>s \<in> tracked_statuses w. s = writeStatusWritten))
     \<and> (CheckLiveness w = Returns False \<longleftrightarrow> (\<exists>s \<in> tracked_statuses w. s = writeStatusFailed))
     \<and> (CheckLiveness w = Returns True \<longleftrightarrow> \<not> (\<exists>s \<in> tracked_statuses w. s = writeStatusFailed))"
proof
  assume a: "x509_pointer_set w"
  note r = CheckReadiness_eq[OF a] and l = CheckLiveness_eq[OF a]
  have 1: "(\<exists>s \<in> tracked_statuses w. s = writeStatusUnwritten \<or> s = writeStatusFailed) \<longrightarrow>
          CheckReadiness w = Returns False"
    unfolding r
  proof (intro impI)
    assume "\<exists>s \<in> tracked_statuses w. s = writeStatusUnwritten \<or> s = writeStatusFailed"
    then obtain s where "s \<in> tracked_statuses w" "s \<noteq> writeStatusWritten"
      using writeStatus_distinct by auto
    then show "Returns (\<forall>s \<in> tracked_statuses w. s = writeStatusWritten) = Returns False"
      by auto
  qed
  have 2: "CheckReadiness w = Returns True \<longrightarrow> (\<forall>s \<in> tracked_statuses w. s = writeStatusWritten)"
    unfolding r by simp
  have 3: "CheckLiveness w = Returns False \<longleftrightarrow> (\<exists>s \<in> tracked_statuses w. s = writeStatusFailed)"
    unfolding l by auto
  have 4: "CheckLiveness w = Returns True \<longleftrightarrow> \<not> (\<exists>s \<in> tracked_statuses w. s = writeStatusFailed)"
    unfolding l by auto
  from r 1 2 3 4 show "CheckReadiness w = Returns (\<forall>s \<in> tracked_statuses w. s = writeStatusWritten)
     \<and> ((\<exists>s \<in> tracked_statuses w. s = writeStatusUnwritten \<or> s = writeStatusFailed) \<longrightarrow>
          CheckReadiness w = Returns False)
     \<and> (CheckReadiness w = Returns True \<longrightarrow> (\<forall>s \<in> tracked_statuses w. s = writeStatusWritten))
     \<and> (CheckLiveness w = Returns False \<longleftrightarrow> (\<exists>s \<in> tracked_statuses w. s = writeStatusFailed))
     \<and> (CheckLiveness w = Returns True \<longleftrightarrow> \<not> (\<exists>s \<in> tracked_statuses w. s = writeStatusFailed))"
    by (intro conjI)
qed

lemma example_failed_bundle:
  "jwt_statuses_in (mem (after_updates join0 full_config heap0 [JWTBundlesUpdate (Some (Failure ''disk full''))]))
     (health (sidecar (after_updates join0 full_config heap0 [JWTBundlesUpdate (Some (Failure ''disk full''))])))
   = [(''certs/jwks.json'', writeStatusFailed), (''certs/jwt.token'', writeStatusUnwritten)]"
  by (simp add: after_updates_def New_def make_map_def setupHealth_def Let_def
        apply_update_def OnJWTBundlesUpdate_def set_JWTWriteStatus_def set_X509WriteStatus_def
        map_assign_def new_string_def jwt_statuses_in_def
        full_config_def join0_def heap0_def x509Enabled_def jwtBundleEnabled_def)

lemma example_fresh:
  "jwt_statuses_in (mem (after_updates join0 full_config heap0 []))
     (health (sidecar (after_updates join0 full_config heap0 [])))
   = [(''certs/jwks.json'', writeStatusUnwritten), (''certs/jwt.token'', writeStatusUnwritten)]"
  "x509_status_in (mem (after_updates join0 full_config heap0 []))
     (health (sidecar (after_updates join0 full_config heap0 []))) = Some writeStatusUnwritten"
  by (simp_all add: after_updates_def New_def make_map_def setupHealth_def Let_def
        set_JWTWriteStatus_def set_X509WriteStatus_def
        map_assign_def new_string_def jwt_statuses_in_def x509_status_in_def
        full_config_def join0_def heap0_def x509Enabled_def jwtBundleEnabled_def)

theorem health_probes_witness:
  "CheckReadiness (after_updates join0 full_config heap0 [JWTBundlesUpdate (Some (Failure ''disk full''))])
     = Returns False
   \<and> CheckLiveness (after_updates join0 full_config heap0 [JWTBundlesUpdate (Some (Failure ''disk full''))])
     = Returns False
   \<and> writeStatusFailed
       \<in> tracked_statuses (after_updates join0 full_config heap0 [JWTBundlesUpdate (Some (Failure ''disk full''))])
   \<and> CheckLiveness (after_updates join0 full_config heap0 []) = Returns True
   \<and> CheckReadiness (after_updates join0 full_config heap0 []) = Returns False
   \<and> writeStatusUnwritten \<in> tracked_statuses (after_updates join0 full_config heap0 [])"
proof -
  let ?w = "after_updates join0 full_config heap0 [JWTBundlesUpdate (Some (Failure ''disk full''))]"
  let ?fresh = "after_updates join0 full_config heap0 []"
  have en: "x509Enabled full_config"
    by (simp add: x509Enabled_def full_config_def)
  have f: "writeStatusFailed \<in> tracked_statuses ?w"
    by (simp add: tracked_statuses_def example_failed_bundle)
  have t0: "tracked_statuses ?fresh = {writeStatusUnwritten}"
    by (simp add: tracked_statuses_def example_fresh config_after_updates en)
  note T = health_probes[of ?w, rule_format, OF x509_pointer_set_after_updates]
  note T0 = health_probes[of ?fresh, rule_format, OF x509_pointer_set_after_updates]
  from T f have a: "CheckReadiness ?w = Returns False" "CheckLiveness ?w = Returns False"
    by blast+
  from T0 have b: "CheckLiveness ?fresh = Returns True" "CheckReadiness ?fresh = Returns False"
    unfolding t0 by (simp_all add: writeStatus_distinct)
  from a b f t0 show ?thesis by simp
qed

subsection \<open>Snapshots\<close>

lemma signalProcess_sidecar_health:
  "FileWriteStatuses (health (sidecar (snd (signalProcess io w)))) = FileWriteStatuses (health (sidecar w))"
  by (simp add: signalProcess_frame)

lemma apply_update_heap_frame:
  "p < nstringVars (mem w) \<Longrightarrow> stringVars (mem (apply_update pj u w)) p = stringVars (mem w) p"
  "nstringVars (mem w) \<le> nstringVars (mem (apply_update pj u w))"
  "JWTWriteStatus (FileWriteStatuses (health (sidecar (apply_update pj u w))))
     = JWTWriteStatus (FileWriteStatuses (health (sidecar w)))"
  by (cases u;
      simp add: apply_update_def updateCertificates_def OnJWTBundlesUpdate_def
        performJWTSVIDUpdate_def Let_def signalProcess_frame set_X509WriteStatus_simps
        set_JWTWriteStatus_simps split: option.splits sum.splits)+

lemma fold_updates_heap_frame:
  "p < nstringVars (mem w) \<Longrightarrow>
     stringVars (mem (fold (apply_update pj) us w)) p = stringVars (mem w) p
     \<and> nstringVars (mem w) \<le> nstringVars (mem (fold (apply_update pj) us w))"
proof (induction us arbitrary: w)
  case Nil
  then show ?case by simp
next
  case (Cons u us)
  from Cons.prems apply_update_heap_frame(2)[of w pj u]
  have p: "p < nstringVars (mem (apply_update pj u w))" by simp
  from Cons.IH[OF p] Cons.prems apply_update_heap_frame(1)[of p w pj u]
    apply_update_heap_frame(2)[of w pj u]
  show ?case by simp
qed

lemma fold_updates_map_ref:
  "JWTWriteStatus (FileWriteStatuses (health (sidecar (fold (apply_update pj) us w))))
     = JWTWriteStatus (FileWriteStatuses (health (sidecar w)))"
  by (induction us arbitrary: w) (simp_all add: apply_update_heap_frame)

lemma fold_set_JWT_frame:
  "sidecar (fold (\<lambda>jwtConfig. set_JWTWriteStatus (path jwtConfig) v) l w) = sidecar w
   \<and> stringVars (mem (fold (\<lambda>jwtConfig. set_JWTWriteStatus (path jwtConfig) v) l w)) = stringVars (mem w)
   \<and> nstringVars (mem (fold (\<lambda>jwtConfig. set_JWTWriteStatus (path jwtConfig) v) l w)) = nstringVars (mem w)"
  by (induction l arbitrary: w) (simp_all add: set_JWTWriteStatus_simps)

lemma pointer_allocated_New: "pointer_allocated (New pj c h)"
  by (simp add: pointer_allocated_def New_def make_map_def setupHealth_def Let_def fold_set_JWT_frame
      set_JWTWriteStatus_simps set_X509WriteStatus_simps)

lemma pointer_allocated_apply_update:
  "pointer_allocated w \<Longrightarrow> pointer_allocated (apply_update pj u w)"
  by (cases u)
     (auto simp: pointer_allocated_def apply_update_def updateCertificates_def OnJWTBundlesUpdate_def
        performJWTSVIDUpdate_def Let_def signalProcess_frame set_X509WriteStatus_simps
        set_JWTWriteStatus_simps split: option.splits sum.splits)

lemma pointer_allocated_after_updates: "pointer_allocated (after_updates pj c h us)"
  by (induction us rule: rev_induct)
     (simp_all add: after_updates_Nil after_updates_snoc pointer_allocated_New
        pointer_allocated_apply_update)

text \<open>
  Claim C8, as amended. \<open>GetHealth\<close> returns the \<open>Health\<close> struct by value. After any
  further updates, the X.509 status read through a snapshot taken before them is what it
  was when the snapshot was taken; the JWT statuses read through that snapshot are those
  of the sidecar after the updates, the snapshot holding the sidecar's map and not a
  copy of it.
\<close>

theorem GetHealth_snapshot:
  "x509_status_in (mem (after_updates pj c h (us @ us'))) (GetHealth (after_updates pj c h us))
     = x509_status_in (mem (after_updates pj c h us)) (GetHealth (after_updates pj c h us))
   \<and> jwt_statuses_in (mem (after_updates pj c h (us @ us'))) (GetHealth (after_updates pj c h us))
     = jwt_statuses_in (mem (after_updates pj c h (us @ us'))) (GetHealth (after_updates pj c h (us @ us')))"
proof
  let ?w = "after_updates pj c h us"
  show "x509_status_in (mem (after_updates pj c h (us @ us'))) (GetHealth ?w)
     = x509_status_in (mem ?w) (GetHealth ?w)"
  proof (cases "X509WriteStatus (FileWriteStatuses (health (sidecar ?w)))")
    case None
    then show ?thesis by (simp add: x509_status_in_def GetHealth_def)
  next
    case (Some p)
    with pointer_allocated_after_updates[of pj c h us] have "p < nstringVars (mem ?w)"
      by (simp add: pointer_allocated_def)
    from fold_updates_heap_frame[OF this, of pj us'] Some show ?thesis
      by (simp add: x509_status_in_def GetHealth_def after_updates_append)
  qed
next
  show "jwt_statuses_in (mem (after_updates pj c h (us @ us'))) (GetHealth (after_updates pj c h us))
     = jwt_statuses_in (mem (after_updates pj c h (us @ us'))) (GetHealth (after_updates pj c h (us @ us')))"
    by (simp add: jwt_statuses_in_def GetHealth_def after_updates_append fold_updates_map_ref)
qed

text \<open>
  Claim C8 as stated fails for the JWT statuses: a snapshot taken from a fresh sidecar
  shows the JWT SVID file as Unwritten, and the same snapshot shows it as Written after
  the sidecar's next JWT SVID update.
\<close>

theorem GetHealth_shares_map:
  "jwt_statuses_in (mem (New join0 jwt_config heap0)) (GetHealth (New join0 jwt_config heap0))
     = [(''certs/jwt.token'', writeStatusUnwritten)]
   \<and> jwt_statuses_in
        (mem (snd (performJWTSVIDUpdate join0 io_ok ''jwt.token'' (New join0 jwt_config heap0))))
        (GetHealth (New join0 jwt_config heap0))
     = [(''certs/jwt.token'', writeStatusWritten)]"
  by (simp add: New_def make_map_def setupHealth_def Let_def performJWTSVIDUpdate_def fetchJWTSVIDs_def
      set_JWTWriteStatus_def map_assign_def jwt_statuses_in_def GetHealth_def
      jwt_config_def join0_def heap0_def io_ok_def x509Enabled_def jwtBundleEnabled_def)

subsection \<open>A response without SVIDs\<close>

lemma set_ticker_retry:
  "backoff_ok b \<Longrightarrow>
     set_ticker (fst (retryInterval b)) (snd (retryInterval b)) hist w =
       Waiting \<lparr>retryIntervalFn = snd (retryInterval b), ticker = b, armed = hist @ [b]\<rparr> w"
  by (simp add: set_ticker_def fst_retryInterval backoff_ok_pos)

lemma waiting_ok_set_ticker: "backoff_ok b \<Longrightarrow> waiting_ok (set_ticker d b hist w)"
  by (simp add: waiting_ok_def set_ticker_def)

lemma waiting_ok_Panicked: "waiting_ok (Panicked w)"
  by (simp add: waiting_ok_def)

lemma waiting_ok_first: "waiting_ok (updateJWTSVID_first pj fn io w)"
proof -
  obtain res w1 where p: "performJWTSVIDUpdate pj io fn w = (res, w1)" by fastforce
  show ?thesis
  proof (cases res)
    case (Inl err)
    with p show ?thesis
      by (simp add: updateJWTSVID_first_def waiting_ok_set_ticker backoff_ok_step backoff_ok_fresh)
  next
    case (Inr svids)
    with p show ?thesis
      by (cases svids)
         (simp_all add: updateJWTSVID_first_def waiting_ok_set_ticker backoff_ok_fresh waiting_ok_Panicked)
  qed
qed

lemma waiting_ok_on_tick:
  assumes "backoff_ok (retryIntervalFn r)"
  shows "waiting_ok (on_tick pj fn io r w)"
proof -
  obtain res w1 where p: "performJWTSVIDUpdate pj io fn w = (res, w1)" by fastforce
  show ?thesis
  proof (cases res)
    case (Inl err)
    with p assms show ?thesis
      by (simp add: on_tick_def waiting_ok_set_ticker backoff_ok_step)
  next
    case (Inr svids)
    with p show ?thesis
      by (cases svids)
         (simp_all add: on_tick_def waiting_ok_set_ticker backoff_ok_fresh waiting_ok_Panicked)
  qed
qed

lemma waiting_ok_loop: "waiting_ok st \<Longrightarrow> waiting_ok (updateJWTSVID_loop pj fn evs st)"
proof (induction pj fn evs st rule: updateJWTSVID_loop.induct)
  case (3 pj fn io evs r w)
  from 3(2) have "backoff_ok (retryIntervalFn r)" by (simp add: waiting_ok_def)
  then have "waiting_ok (on_tick pj fn io r w)" by (rule waiting_ok_on_tick)
  from 3(1)[OF this] show ?case by simp
qed (simp_all add: waiting_ok_def)

lemma waiting_ok_updateJWTSVID: "waiting_ok (updateJWTSVID pj fn io evs w)"
  by (simp add: updateJWTSVID_def waiting_ok_loop waiting_ok_first)

lemma loop_snoc_tick:
  "updateJWTSVID_loop pj fn evs st = Waiting r w \<Longrightarrow>
     updateJWTSVID_loop pj fn (evs @ [Tick io]) st = on_tick pj fn io r w"
  by (induction pj fn evs st rule: updateJWTSVID_loop.induct) simp_all

lemma JWTSource_FetchJWTSVIDs_empty:
  "JWTSource_FetchJWTSVIDs (Inr []) = Inl (Failure ''there were no SVIDs in the response'')"
  by (simp add: JWTSource_FetchJWTSVIDs_def parseJWTSVIDs_def)

lemma perform_fetch_error:
  "FetchJWTSVIDs io = Inl err \<Longrightarrow> performJWTSVIDUpdate pj io fn w = (Inl err, w)"
  by (simp add: performJWTSVIDUpdate_def fetchJWTSVIDs_def)

text \<open>
  Claim C2. \<open>jwtSource.FetchJWTSVIDs\<close> never answers with an empty list and no error.
  When the response of the issuer has no SVID, its answer is an error, and the update is
  a failed fetch: \<open>performJWTSVIDUpdate\<close> returns the error and leaves the sidecar as it
  was, so that no write status changes and none becomes Written; the first update of
  \<open>updateJWTSVID\<close> sets the ticker to the first retry interval, one second; and a later
  tick sets it to the next interval of the retry closure, which is positive and at most
  sixty seconds. Nothing panics.
\<close>

theorem zero_svids_fetch_failure:
  "JWTSource_FetchJWTSVIDs response \<noteq> Inr []
   \<and> (FetchJWTSVIDs io = JWTSource_FetchJWTSVIDs (Inr []) \<longrightarrow>
        performJWTSVIDUpdate pj io fn w = (Inl (Failure ''there were no SVIDs in the response''), w)
        \<and> (\<forall>res. status_of (snd (performJWTSVIDUpdate pj io fn w)) res = status_of w res)
        \<and> updateJWTSVID_first pj fn io w =
             Waiting \<lparr>retryIntervalFn = snd (retryInterval createRetryIntervalFunc), ticker = Second,
                      armed = [Second]\<rparr> w
        \<and> (updateJWTSVID pj fn io0 evs w0 = Waiting r w \<longrightarrow>
             updateJWTSVID pj fn io0 (evs @ [Tick io]) w0 =
               Waiting \<lparr>retryIntervalFn = snd (retryInterval (retryIntervalFn r)),
                        ticker = retryIntervalFn r, armed = armed r @ [retryIntervalFn r]\<rparr> w
             \<and> 0 <s retryIntervalFn r \<and> retryIntervalFn r \<le>s maxBackoff))"
proof (rule conjI)
  show "JWTSource_FetchJWTSVIDs response \<noteq> Inr []"
    by (simp add: JWTSource_FetchJWTSVIDs_def parseJWTSVIDs_def split: sum.splits)
next
  show "FetchJWTSVIDs io = JWTSource_FetchJWTSVIDs (Inr []) \<longrightarrow>
        performJWTSVIDUpdate pj io fn w = (Inl (Failure ''there were no SVIDs in the response''), w)
        \<and> (\<forall>res. status_of (snd (performJWTSVIDUpdate pj io fn w)) res = status_of w res)
        \<and> updateJWTSVID_first pj fn io w =
             Waiting \<lparr>retryIntervalFn = snd (retryInterval createRetryIntervalFunc), ticker = Second,
                      armed = [Second]\<rparr> w
        \<and> (updateJWTSVID pj fn io0 evs w0 = Waiting r w \<longrightarrow>
             updateJWTSVID pj fn io0 (evs @ [Tick io]) w0 =
               Waiting \<lparr>retryIntervalFn = snd (retryInterval (retryIntervalFn r)),
                        ticker = retryIntervalFn r, armed = armed r @ [retryIntervalFn r]\<rparr> w
             \<and> 0 <s retryIntervalFn r \<and> retryIntervalFn r \<le>s maxBackoff)"
  proof
    assume "FetchJWTSVIDs io = JWTSource_FetchJWTSVIDs (Inr [])"
    then have f: "FetchJWTSVIDs io = Inl (Failure ''there were no SVIDs in the response'')"
      by (simp add: JWTSource_FetchJWTSVIDs_empty)
    note p = perform_fetch_error[OF f]
    have 1: "performJWTSVIDUpdate pj io fn w = (Inl (Failure ''there were no SVIDs in the response''), w)"
      by (rule p)
    have 2: "\<forall>res. status_of (snd (performJWTSVIDUpdate pj io fn w)) res = status_of w res"
      by (simp add: p)
    have 3: "updateJWTSVID_first pj fn io w =
             Waiting \<lparr>retryIntervalFn = snd (retryInterval createRetryIntervalFunc), ticker = Second,
                      armed = [Second]\<rparr> w"
      using set_ticker_retry[OF backoff_ok_fresh, of "[]"]
      by (simp add: updateJWTSVID_first_def p fst_retryInterval createRetryIntervalFunc_def
          initialBackoff_def)
    have 4: "updateJWTSVID pj fn io0 evs w0 = Waiting r w \<longrightarrow>
             updateJWTSVID pj fn io0 (evs @ [Tick io]) w0 =
               Waiting \<lparr>retryIntervalFn = snd (retryInterval (retryIntervalFn r)),
                        ticker = retryIntervalFn r, armed = armed r @ [retryIntervalFn r]\<rparr> w
             \<and> 0 <s retryIntervalFn r \<and> retryIntervalFn r \<le>s maxBackoff"
    proof
      assume run: "updateJWTSVID pj fn io0 evs w0 = Waiting r w"
      with waiting_ok_updateJWTSVID[of pj fn io0 evs w0] have ok: "backoff_ok (retryIntervalFn r)"
        by (simp add: waiting_ok_def)
      from run have "updateJWTSVID pj fn io0 (evs @ [Tick io]) w0 = on_tick pj fn io r w"
        unfolding updateJWTSVID_def by (rule loop_snoc_tick)
      also have "\<dots> = Waiting \<lparr>retryIntervalFn = snd (retryInterval (retryIntervalFn r)),
                       ticker = retryIntervalFn r, armed = armed r @ [retryIntervalFn r]\<rparr> w"
        using set_ticker_retry[OF ok] by (simp add: on_tick_def p)
      finally show "updateJWTSVID pj fn io0 (evs @ [Tick io]) w0 =
               Waiting \<lparr>retryIntervalFn = snd (retryInterval (retryIntervalFn r)),
                        ticker = retryIntervalFn r, armed = armed r @ [retryIntervalFn r]\<rparr> w
             \<and> 0 <s retryIntervalFn r \<and> retryIntervalFn r \<le>s maxBackoff"
        using ok by (simp add: backoff_ok_def word_sless_alt word_sle_eq sint_maxBackoff)
    qed
    from 1 2 3 4
    show "performJWTSVIDUpdate pj io fn w = (Inl (Failure ''there were no SVIDs in the response''), w)
        \<and> (\<forall>res. status_of (snd (performJWTSVIDUpdate pj io fn w)) res = status_of w res)
        \<and> updateJWTSVID_first pj fn io w =
             Waiting \<lparr>retryIntervalFn = snd (retryInterval createRetryIntervalFunc), ticker = Second,
                      armed = [Second]\<rparr> w
        \<and> (updateJWTSVID pj fn io0 evs w0 = Waiting r w \<longrightarrow>
             updateJWTSVID pj fn io0 (evs @ [Tick io]) w0 =
               Waiting \<lparr>retryIntervalFn = snd (retryInterval (retryIntervalFn r)),
                        ticker = retryIntervalFn r, armed = armed r @ [retryIntervalFn r]\<rparr> w
             \<and> 0 <s retryIntervalFn r \<and> retryIntervalFn r \<le>s maxBackoff)"
      by (intro conjI)
  qed
qed

theorem zero_svids_fetch_failure_witness:
  "performJWTSVIDUpdate join0 io_no_svids ''jwt.token'' (New join0 jwt_config heap0)
     = (Inl (Failure ''there were no SVIDs in the response''), New join0 jwt_config heap0)
   \<and> updateJWTSVID_first join0 ''jwt.token'' io_no_svids (New join0 jwt_config heap0) =
        Waiting \<lparr>retryIntervalFn = snd (retryInterval createRetryIntervalFunc), ticker = Second,
                 armed = [Second]\<rparr> (New join0 jwt_config heap0)
   \<and> updateJWTSVID join0 ''jwt.token'' io_no_svids [Tick io_no_svids] (New join0 jwt_config heap0) =
        Waiting \<lparr>retryIntervalFn = snd (retryInterval (snd (retryInterval createRetryIntervalFunc))),
                 ticker = snd (retryInterval createRetryIntervalFunc),
                 armed = [Second, snd (retryInterval createRetryIntervalFunc)]\<rparr>
          (New join0 jwt_config heap0)
   \<and> sint (snd (retryInterval createRetryIntervalFunc)) = 2000000000
   \<and> status_of (snd (performJWTSVIDUpdate join0 io_no_svids ''jwt.token'' (New join0 jwt_config heap0)))
        (JWTResource ''certs/jwt.token'') \<noteq> Some writeStatusWritten"
proof -
  let ?W = "New join0 jwt_config heap0"
  let ?r = "\<lparr>retryIntervalFn = snd (retryInterval createRetryIntervalFunc), ticker = Second,
             armed = [Second]\<rparr>"
  have h: "FetchJWTSVIDs io_no_svids = JWTSource_FetchJWTSVIDs (Inr [])"
    by (simp add: io_no_svids_def)
  note T = zero_svids_fetch_failure[where response = "Inr []" and io = io_no_svids and pj = join0
      and fn = "''jwt.token''" and w = ?W and ?io0.0 = io_no_svids and evs = "[]" and ?w0.0 = ?W and r = ?r,
      THEN conjunct2, rule_format, OF h]
  from T have a: "performJWTSVIDUpdate join0 io_no_svids ''jwt.token'' ?W
     = (Inl (Failure ''there were no SVIDs in the response''), ?W)" by (rule conjunct1)
  from T have b: "updateJWTSVID_first join0 ''jwt.token'' io_no_svids ?W = Waiting ?r ?W"
    by (rule conjunct2[THEN conjunct2, THEN conjunct1])
  then have first: "updateJWTSVID join0 ''jwt.token'' io_no_svids [] ?W = Waiting ?r ?W"
    by (simp add: updateJWTSVID_def)
  from T[THEN conjunct2, THEN conjunct2, THEN conjunct2, rule_format, OF first]
  have c: "updateJWTSVID join0 ''jwt.token'' io_no_svids ([] @ [Tick io_no_svids]) ?W =
        Waiting \<lparr>retryIntervalFn = snd (retryInterval (retryIntervalFn ?r)),
                 ticker = retryIntervalFn ?r, armed = armed ?r @ [retryIntervalFn ?r]\<rparr> ?W"
    by (rule conjunct1)
  have two: "sint (snd (retryInterval createRetryIntervalFunc)) = 2000000000"
    by (simp add: sint_snd_retryInterval createRetryIntervalFunc_def initialBackoff_def Second_def)
  have d: "status_of ?W (JWTResource ''certs/jwt.token'') \<noteq> Some writeStatusWritten"
    using all_unwritten_New[of join0 jwt_config heap0]
    by (auto simp add: all_unwritten_def writeStatusWritten_def writeStatusUnwritten_def)
  from a b c two d show ?thesis by simp
qed

subsection \<open>Concurrent calls\<close>





lemma call_step_AtTest:
  "calls st ! t = AtTest \<Longrightarrow>
     call_step io t st =
       st\<lparr>calls := (calls st)[t := (if \<not> processRunning (sidecar (shared st)) then AtStart else AtSignal)]\<rparr>"
  unfolding call_step_def by (simp add: Let_def)

lemma call_step_AtStart:
  "calls st ! t = AtStart \<Longrightarrow>
     call_step io t st =
       (case getCmdArgs (csv_Read io) (CmdArgs (config (sidecar (shared st)))) of
             Inl err \<Rightarrow>
               st\<lparr>calls := (calls st)[t := AtUnlock (Some (Wrapped ''error parsing cmd arguments'' err))]\<rparr>
           | Inr cmdArgs \<Rightarrow>
               (case cmd_Start io (Cmd (config (sidecar (shared st)))) cmdArgs of
                  Inl err \<Rightarrow>
                    st\<lparr>calls := (calls st)[t := AtUnlock (Some (start_error (Cmd (config (sidecar (shared st)))) err))]\<rparr>
                | Inr p \<Rightarrow>
                    st\<lparr>shared := (shared st)\<lparr>started := started (shared st) @ [p]\<rparr>,
                       calls := (calls st)[t := AtRecord p]\<rparr>))"
  unfolding call_step_def by (simp add: Let_def)

lemma call_step_AtRecord:
  "calls st ! t = AtRecord p \<Longrightarrow>
     call_step io t st =
       st\<lparr>shared := (shared st)\<lparr>sidecar := (sidecar (shared st))\<lparr>process := Some p, processRunning := True\<rparr>\<rparr>,
             reapers := reapers st @ [RAtLock],
             calls := (calls st)[t := AtUnlock None]\<rparr>"
  unfolding call_step_def by (simp add: Let_def)

lemma call_step_AtSignal:
  "calls st ! t = AtSignal \<Longrightarrow>
     call_step io t st =
       st\<lparr>shared := (shared st)\<lparr>signalled := signalled (shared st)
                 @ [(process (sidecar (shared st)), RenewSignal (config (sidecar (shared st))))]\<rparr>,
             calls := (calls st)[t := AtUnlock (SignalProcess io (process (sidecar (shared st)))
                 (RenewSignal (config (sidecar (shared st)))))]\<rparr>"
  unfolding call_step_def by (simp add: Let_def)

lemma call_step_AtUnlock:
  "calls st ! t = AtUnlock r \<Longrightarrow>
     call_step io t st = st\<lparr>mutex := None, calls := (calls st)[t := Done r]\<rparr>"
  unfolding call_step_def by (simp add: Let_def)

lemma call_step_Done:
  "calls st ! t = Done r \<Longrightarrow> call_step io t st = st"
  unfolding call_step_def by (simp add: Let_def)





















subsection \<open>Schedules without exits\<close>





lemma holder_pc_simps:
  "mutex st = None \<Longrightarrow> holder_pc st = None"
  "mutex st = Some (Reaper j) \<Longrightarrow> holder_pc st = None"
  "mutex st = Some (Call t) \<Longrightarrow> t < length (calls st) \<Longrightarrow> holder_pc st = Some (calls st ! t)"
  by (simp_all add: holder_pc_def)



































text \<open>
  The steps of one call between its \<open>Lock\<close> and its return are the body of
  \<open>signalProcess\<close>: taken one after the other, they leave the state that the body
  leaves and return what it returns.
\<close>

lemma call_steps_signalProcess:
  assumes "calls st ! t = AtTest" "t < length (calls st)"
  shows "shared ((call_step io t ^^ 4) st) = snd (signalProcess io (shared st))
       \<and> calls ((call_step io t ^^ 4) st) ! t = Done (fst (signalProcess io (shared st)))"
proof (cases "processRunning (sidecar (shared st))")
  case True
  with assms show ?thesis
    by (simp add: numeral_eq_Suc call_step_AtTest call_step_AtSignal call_step_AtUnlock call_step_Done
        signalProcess_def Let_def)
next
  case False
  show ?thesis
  proof (cases "getCmdArgs (csv_Read io) (CmdArgs (config (sidecar (shared st))))")
    case (Inl err)
    with assms False show ?thesis
      by (simp add: numeral_eq_Suc call_step_AtTest call_step_AtStart call_step_AtUnlock call_step_Done
        signalProcess_def Let_def)
  next
    case (Inr cmdArgs)
    with assms False show ?thesis
      by (cases "cmd_Start io (Cmd (config (sidecar (shared st)))) cmdArgs")
         (simp_all add: numeral_eq_Suc call_step_AtTest call_step_AtStart call_step_AtRecord
            call_step_AtUnlock call_step_Done signalProcess_def Let_def)
  qed
qed

end
